theory Spec2Isabelle
  imports
    Main
    "HOL-Library.Char_ord"
    "HOL-Library.List_Lexorder"
    "HOL-Library.Word"
begin

section \<open>A record manager for people: dates, validation, loading, adding, saving\<close>

text \<open>
  The program in \<^verbatim>\<open>3.py\<close> keeps a list of person dictionaries in a JSON file under
  \<^verbatim>\<open>data/\<close>. This theory embeds its functions \<^verbatim>\<open>validate_person\<close>, \<^verbatim>\<open>add_person\<close>,
  \<^verbatim>\<open>select_people\<close>, \<^verbatim>\<open>save_people\<close>, \<^verbatim>\<open>load_people\<close> and the \<^verbatim>\<open>add\<close> command, together
  with the parts of the Python libraries they call (\<^verbatim>\<open>datetime.strptime\<close>, \<^verbatim>\<open>strftime\<close>,
  \<^verbatim>\<open>jsonschema.validate\<close>, \<^verbatim>\<open>list.sort\<close>, \<^verbatim>\<open>json.dump\<close>, \<^verbatim>\<open>json.load\<close>).

  A Python \<^verbatim>\<open>str\<close> is modelled as a \<^typ>\<open>string\<close>: a list of characters with code points
  0 to 255, compared lexicographically by code point as Python compares \<^verbatim>\<open>str\<close> values.
  Among these code points only \<^verbatim>\<open>0\<close> to \<^verbatim>\<open>9\<close> are decimal digits.
\<close>

subsection \<open>Calendar dates\<close>

text \<open>
  Every \<^verbatim>\<open>datetime\<close> the program builds comes from \<^verbatim>\<open>strptime\<close> with the format
  \<^verbatim>\<open>%d.%m.%Y\<close>, so its time of day is midnight and it has no time zone: the model keeps
  the three date fields. Python only ever holds valid dates (\<open>valid_date\<close>).
\<close>

record datetime =
  year :: nat
  month :: nat
  day :: nat

definition is_leap :: "nat \<Rightarrow> bool" where
  "is_leap y \<longleftrightarrow> y mod 4 = 0 \<and> (y mod 100 \<noteq> 0 \<or> y mod 400 = 0)"

definition days_in_month :: "nat \<Rightarrow> nat \<Rightarrow> nat" where
  "days_in_month y m =
     (if m = 2 then (if is_leap y then 29 else 28)
      else if m = 4 \<or> m = 6 \<or> m = 9 \<or> m = 11 then 30
      else 31)"

definition valid_date :: "datetime \<Rightarrow> bool" where
  "valid_date d \<longleftrightarrow>
     1 \<le> year d \<and> year d \<le> 9999 \<and> 1 \<le> month d \<and> month d \<le> 12 \<and>
     1 \<le> day d \<and> day d \<le> days_in_month (year d) (month d)"

subsection \<open>Digits\<close>

definition is_digit :: "char \<Rightarrow> bool" where
  "is_digit c \<longleftrightarrow> CHR ''0'' \<le> c \<and> c \<le> CHR ''9''"

definition is_digit19 :: "char \<Rightarrow> bool" where
  "is_digit19 c \<longleftrightarrow> CHR ''1'' \<le> c \<and> c \<le> CHR ''9''"

definition digit_val :: "char \<Rightarrow> nat" where
  "digit_val c = of_char c - 48"

definition digit_char :: "nat \<Rightarrow> char" where
  "digit_char n = char_of (48 + n)"

text \<open>Python's \<^verbatim>\<open>int(s)\<close> on a string of decimal digits, with an optional leading blank.\<close>

definition int_of_digits :: "string \<Rightarrow> nat" where
  "int_of_digits s = foldl (\<lambda>a c. 10 * a + digit_val c) 0 (dropWhile (\<lambda>c. c = CHR '' '') s)"

subsection \<open>\<^verbatim>\<open>datetime.strptime(s, '%d.%m.%Y')\<close>\<close>

text \<open>
  \<^verbatim>\<open>strptime\<close> compiles the format into the regular expression
  \<^verbatim>\<open>(?P<d>3[0-1]|[1-2]\d|0[1-9]|[1-9]| [1-9])\.(?P<m>1[0-2]|0[1-9]|[1-9])\.(?P<Y>\d\d\d\d)\<close>,
  matches it at the start of the string and raises \<^verbatim>\<open>ValueError\<close> when it does not
  match or when text remains after the match. No alternative of the day or month group
  matches a dot, so the day is the text before the first dot and the month the text
  between the first and the second; the year is the four characters after the second
  dot, and nothing may follow them. The three numbers then go through the constructor of
  \<^verbatim>\<open>date\<close>, which raises \<^verbatim>\<open>ValueError\<close> on year 0 and on a day the month does not have.
  \<open>None\<close> stands for the \<^verbatim>\<open>ValueError\<close>.
\<close>

definition match_d :: "string \<Rightarrow> bool" where
  "match_d s =
     (case s of
        [a] \<Rightarrow> is_digit19 a
      | [a, b] \<Rightarrow>
          (a = CHR ''3'' \<and> (b = CHR ''0'' \<or> b = CHR ''1'')) \<or>
          ((a = CHR ''1'' \<or> a = CHR ''2'') \<and> is_digit b) \<or>
          (a = CHR ''0'' \<and> is_digit19 b) \<or>
          (a = CHR '' '' \<and> is_digit19 b)
      | _ \<Rightarrow> False)"

definition match_m :: "string \<Rightarrow> bool" where
  "match_m s =
     (case s of
        [a] \<Rightarrow> is_digit19 a
      | [a, b] \<Rightarrow>
          (a = CHR ''1'' \<and> (b = CHR ''0'' \<or> b = CHR ''1'' \<or> b = CHR ''2'')) \<or>
          (a = CHR ''0'' \<and> is_digit19 b)
      | _ \<Rightarrow> False)"

definition match_Y :: "string \<Rightarrow> bool" where
  "match_Y s \<longleftrightarrow> length s = 4 \<and> list_all is_digit s"

definition not_dot :: "char \<Rightarrow> bool" where
  "not_dot c \<longleftrightarrow> c \<noteq> CHR ''.''"

definition strptime :: "string \<Rightarrow> datetime option" where
  "strptime s =
     (let d = takeWhile not_dot s; r1 = dropWhile not_dot s in
      case r1 of
        [] \<Rightarrow> None
      | _ # s1 \<Rightarrow>
          (let m = takeWhile not_dot s1; r2 = dropWhile not_dot s1 in
           case r2 of
             [] \<Rightarrow> None
           | _ # y \<Rightarrow>
               if match_d d \<and> match_m m \<and> match_Y y then
                 (let dt = \<lparr>year = int_of_digits y, month = int_of_digits m,
                            day = int_of_digits d\<rparr>
                  in if valid_date dt then Some dt else None)
               else None))"

subsection \<open>\<^verbatim>\<open>datetime.strftime('%d.%m.%Y')\<close>\<close>

text \<open>
  \<^verbatim>\<open>strftime\<close> hands the format to the C library. \<^verbatim>\<open>%d\<close> and \<^verbatim>\<open>%m\<close> print two digits.
  \<^verbatim>\<open>%Y\<close> prints the year as a decimal number with no padding: four digits from the year
  1000 on, and \<^verbatim>\<open>985\<close>, not \<^verbatim>\<open>0985\<close>, for the year 985 (CPython on glibc). The years of
  a \<^verbatim>\<open>datetime\<close> are 1 to 9999.
\<close>

definition pad2 :: "nat \<Rightarrow> string" where
  "pad2 n = [digit_char (n div 10 mod 10), digit_char (n mod 10)]"

definition pad4 :: "nat \<Rightarrow> string" where
  "pad4 n = [digit_char (n div 1000 mod 10), digit_char (n div 100 mod 10),
             digit_char (n div 10 mod 10), digit_char (n mod 10)]"

definition year_text :: "nat \<Rightarrow> string" where
  "year_text y =
     (if y < 10 then [digit_char y]
      else if y < 100 then [digit_char (y div 10), digit_char (y mod 10)]
      else if y < 1000 then
        [digit_char (y div 100), digit_char (y div 10 mod 10), digit_char (y mod 10)]
      else pad4 y)"

definition strftime :: "datetime \<Rightarrow> string" where
  "strftime d = pad2 (day d) @ ''.'' @ pad2 (month d) @ ''.'' @ year_text (year d)"

subsection \<open>JSON values, Python values and dictionaries\<close>

text \<open>
  \<open>json\<close> is what \<^verbatim>\<open>json.load\<close> returns and \<^verbatim>\<open>json.dump\<close> accepts; a float is its
  64-bit pattern. A value held in a person dictionary is either such a value or a
  \<^verbatim>\<open>datetime\<close>. A dictionary is an association list in insertion order, as Python
  dictionaries are; its keys are meant to be distinct.
\<close>

datatype json =
    JNull
  | JBool bool
  | JInt int
  | JFloat "64 word"
  | JString string
  | JArray "json list"
  | JObject "(string \<times> json) list"

datatype pyval = Json json | Datetime datetime

type_synonym person = "(string \<times> pyval) list"

datatype error = ValueError | AttributeError | TypeError | FileNotFoundError | JSONDecodeError

text \<open>\<^verbatim>\<open>d.get(k)\<close>, with \<open>None\<close> where Python returns the default.\<close>

definition dict_get :: "(string \<times> 'v) list \<Rightarrow> string \<Rightarrow> 'v option" where
  "dict_get d k = map_of d k"

text \<open>\<^verbatim>\<open>d[k] = v\<close>: an existing key keeps its position, a new key goes last.\<close>

fun dict_set :: "(string \<times> 'v) list \<Rightarrow> string \<Rightarrow> 'v \<Rightarrow> (string \<times> 'v) list" where
  "dict_set [] k v = [(k, v)]"
| "dict_set ((k', v') # d) k v = (if k' = k then (k, v) # d else (k', v') # dict_set d k v)"

subsection \<open>The schema and \<^verbatim>\<open>jsonschema.validate\<close>\<close>

text \<open>
  A schema holds the keywords \<^verbatim>\<open>type\<close>, \<^verbatim>\<open>properties\<close>, \<^verbatim>\<open>required\<close> and \<^verbatim>\<open>format\<close>, the
  ones \<open>person_schema\<close> uses. \<^verbatim>\<open>properties\<close> and \<^verbatim>\<open>required\<close> constrain objects only;
  \<^verbatim>\<open>properties\<close> constrains the keys that are present. \<^verbatim>\<open>validate_person\<close> calls
  \<^verbatim>\<open>jsonschema.validate\<close> without a \<^verbatim>\<open>format_checker\<close>, and then \<^verbatim>\<open>format\<close> is an
  annotation that yields no error. The schema has no \<^verbatim>\<open>additionalProperties\<close>.
\<close>

datatype jtype = TObject | TString

datatype schema =
  Schema (s_type: "jtype option") (s_properties: "(string \<times> schema) list")
         (s_required: "string list") (s_format: "string option")

definition person_schema :: schema where
  "person_schema =
     Schema (Some TObject)
       [(''name'', Schema (Some TString) [] [] None),
        (''surname'', Schema (Some TString) [] [] None),
        (''date_of_birth'', Schema (Some TString) [] [] (Some ''date'')),
        (''zodiac_sign'', Schema (Some TString) [] [] None)]
       [''name'', ''surname'', ''date_of_birth'', ''zodiac_sign'']
       None"

fun is_type :: "jtype \<Rightarrow> json \<Rightarrow> bool" where
  "is_type TObject (JObject d) = True"
| "is_type TString (JString s) = True"
| "is_type t v = False"

text \<open>A validation error: the path to the offending value and the keyword that failed.\<close>

datatype verror =
    Type_mismatch "string list" jtype
  | Required_missing "string list" string

fun error_path :: "verror \<Rightarrow> string list" where
  "error_path (Type_mismatch p t) = p"
| "error_path (Required_missing p k) = p"

text \<open>The errors in the order the validator yields them: keyword by keyword.\<close>

fun iter_errors :: "schema \<Rightarrow> string list \<Rightarrow> json \<Rightarrow> verror list"
  and iter_properties :: "(string \<times> schema) list \<Rightarrow> string list \<Rightarrow> (string \<times> json) list \<Rightarrow> verror list"
where
  "iter_errors (Schema t ps req fmt) path v =
     (case t of None \<Rightarrow> [] | Some ty \<Rightarrow> if is_type ty v then [] else [Type_mismatch path ty]) @
     (case v of JObject d \<Rightarrow> iter_properties ps path d | _ \<Rightarrow> []) @
     (case v of
        JObject d \<Rightarrow> map (Required_missing path) (filter (\<lambda>k. dict_get d k = None) req)
      | _ \<Rightarrow> [])"
| "iter_properties [] path d = []"
| "iter_properties ((k, sub) # ps) path d =
     (case dict_get d k of None \<Rightarrow> [] | Some x \<Rightarrow> iter_errors sub (path @ [k]) x) @
     iter_properties ps path d"

text \<open>
  \<^verbatim>\<open>validate\<close> raises the most relevant error, one of those with the shortest path. The
  model takes the first of them; which of several equally relevant errors is raised
  plays no role in what follows.
\<close>

definition best_match :: "verror list \<Rightarrow> verror option" where
  "best_match errs =
     (case filter (\<lambda>e. error_path e = []) errs of
        e # _ \<Rightarrow> Some e
      | [] \<Rightarrow> (case errs of e # _ \<Rightarrow> Some e | [] \<Rightarrow> None))"

subsection \<open>Printed lines\<close>

text \<open>
  What the program prints, one constructor for each \<^verbatim>\<open>print\<close> of the functions below:
  the schema diagnostic of \<^verbatim>\<open>validate_person\<close> with the error it formats, the two skip
  notices of \<^verbatim>\<open>load_people\<close> (the second with the record counter), the numbered name and
  surname line of \<^verbatim>\<open>select_people\<close>, and its notice that nobody was found.
\<close>

datatype line =
    Schema_mismatch verror
  | Skip_invalid
  | Skip_date nat
  | Selected nat pyval pyval
  | Not_found

subsection \<open>\<^verbatim>\<open>validate_person\<close>\<close>

definition validate_person :: "json \<Rightarrow> schema \<Rightarrow> bool \<times> line list" where
  "validate_person person_data schema =
     (case best_match (iter_errors schema [] person_data) of
        None \<Rightarrow> (True, [])
      | Some e \<Rightarrow> (False, [Schema_mismatch e]))"

subsection \<open>\<^verbatim>\<open>add_person\<close>\<close>

text \<open>The sort key \<^verbatim>\<open>item.get('zodiac_sign', '')\<close>.\<close>

definition zodiac_key :: "person \<Rightarrow> pyval" where
  "zodiac_key item =
     (case dict_get item ''zodiac_sign'' of None \<Rightarrow> Json (JString []) | Some v \<Rightarrow> v)"

fun is_str :: "pyval \<Rightarrow> bool" where
  "is_str (Json (JString s)) = True"
| "is_str v = False"

fun str_of :: "pyval \<Rightarrow> string" where
  "str_of (Json (JString s)) = s"
| "str_of v = []"

text \<open>
  \<^verbatim>\<open>people.sort(key=...)\<close> in \<^verbatim>\<open>add_person\<close>. The sort is stable and compares keys with
  \<^verbatim>\<open><\<close>; a stable sort has one result, the one insertion sort computes. The key of the
  record just appended is a \<^verbatim>\<open>str\<close>, and no value of another type compares with a
  \<^verbatim>\<open>str\<close>: when some key is not a \<^verbatim>\<open>str\<close> the sort raises \<^verbatim>\<open>TypeError\<close>.
\<close>

definition sort_people :: "person list \<Rightarrow> error + person list" where
  "sort_people people =
     (if list_all (\<lambda>item. is_str (zodiac_key item)) people
      then Inr (sort_key (\<lambda>item. str_of (zodiac_key item)) people)
      else Inl TypeError)"

text \<open>
  \<^verbatim>\<open>add_person\<close> changes the list it is given. The model returns the contents of that
  list after the call, then what the call returned or raised. \<^verbatim>\<open>strptime\<close> is the first
  statement, so its \<^verbatim>\<open>ValueError\<close> leaves the list as it was. When the sort raises, the
  record has been appended; Python then leaves the elements in an order that depends on
  how far the sort got, the model keeps the order before the sort.
\<close>

definition add_person ::
  "person list \<Rightarrow> string \<Rightarrow> string \<Rightarrow> string \<Rightarrow> string \<Rightarrow> person list \<times> (error + person list)"
where
  "add_person people name surname date_of_birth zodiac_sign =
     (case strptime date_of_birth of
        None \<Rightarrow> (people, Inl ValueError)
      | Some date_of_birth' \<Rightarrow>
          (let person = [(''name'', Json (JString name)),
                         (''surname'', Json (JString surname)),
                         (''date_of_birth'', Datetime date_of_birth'),
                         (''zodiac_sign'', Json (JString zodiac_sign))];
               people' = people @ [person]
           in case sort_people people' of
                Inl e \<Rightarrow> (people', Inl e)
              | Inr people'' \<Rightarrow> (people'', Inr people'')))"

subsection \<open>\<^verbatim>\<open>select_people\<close>\<close>

text \<open>
  The loop over \<^verbatim>\<open>people\<close> with its counter and the lines printed so far. A record
  whose \<^verbatim>\<open>date_of_birth\<close> is missing or is not a \<^verbatim>\<open>datetime\<close> has no \<^verbatim>\<open>month\<close>:
  \<^verbatim>\<open>AttributeError\<close>, after the lines already printed.
\<close>

definition get_or_empty :: "person \<Rightarrow> string \<Rightarrow> pyval" where
  "get_or_empty person k = (case dict_get person k of None \<Rightarrow> Json (JString []) | Some v \<Rightarrow> v)"

fun select_loop :: "person list \<Rightarrow> int \<Rightarrow> nat \<Rightarrow> line list \<Rightarrow> (error + nat) \<times> line list" where
  "select_loop [] m count out = (Inr count, out)"
| "select_loop (person # people) m count out =
     (case dict_get person ''date_of_birth'' of
        Some (Datetime d) \<Rightarrow>
          if int (month d) = m then
            select_loop people m (count + 1)
              (out @ [Selected (count + 1) (get_or_empty person ''name'')
                        (get_or_empty person ''surname'')])
          else select_loop people m count out
      | _ \<Rightarrow> (Inl AttributeError, out))"

definition select_people :: "person list \<Rightarrow> int \<Rightarrow> (error + unit) \<times> line list" where
  "select_people people m =
     (case select_loop people m 0 [] of
        (Inl e, out) \<Rightarrow> (Inl e, out)
      | (Inr count, out) \<Rightarrow> (Inr (), if count = 0 then out @ [Not_found] else out))"

subsection \<open>Files\<close>

text \<open>
  A file holds a JSON text, modelled by the value \<^verbatim>\<open>json.load\<close> reads from it (the value
  \<^verbatim>\<open>json.dump\<close> wrote), or something \<^verbatim>\<open>json.load\<close> rejects. The directory \<^verbatim>\<open>data\<close> is
  taken to exist and to be writable.
\<close>

datatype file_content = Valid_JSON json | Invalid_JSON

type_synonym files = "string \<rightharpoonup> file_content"

text \<open>\<^verbatim>\<open>os.path.join('data', file_name)\<close>: an absolute second part replaces the first.\<close>

definition file_path :: "string \<Rightarrow> string" where
  "file_path file_name =
     (case file_name of
        c # cs \<Rightarrow> if c = CHR ''/'' then file_name else ''data/'' @ file_name
      | [] \<Rightarrow> ''data/'')"

subsection \<open>\<^verbatim>\<open>save_people\<close>\<close>

text \<open>
  One round of the list comprehension: \<^verbatim>\<open>{**person, 'date_of_birth': ...strftime(...)}\<close>
  is a new dictionary. \<^verbatim>\<open>person.get('date_of_birth')\<close> that is \<^verbatim>\<open>None\<close> or not a
  \<^verbatim>\<open>datetime\<close> has no \<^verbatim>\<open>strftime\<close>.
\<close>

definition format_person :: "person \<Rightarrow> error + person" where
  "format_person person =
     (case dict_get person ''date_of_birth'' of
        Some (Datetime d) \<Rightarrow> Inr (dict_set person ''date_of_birth'' (Json (JString (strftime d))))
      | _ \<Rightarrow> Inl AttributeError)"

fun format_staff :: "person list \<Rightarrow> error + person list" where
  "format_staff [] = Inr []"
| "format_staff (person # staff) =
     (case format_person person of
        Inl e \<Rightarrow> Inl e
      | Inr p \<Rightarrow> (case format_staff staff of Inl e \<Rightarrow> Inl e | Inr ps \<Rightarrow> Inr (p # ps)))"

text \<open>What \<^verbatim>\<open>json.dump\<close> writes for the list; a \<^verbatim>\<open>datetime\<close> is not serializable.\<close>

fun json_of_dict :: "person \<Rightarrow> (string \<times> json) list option" where
  "json_of_dict [] = Some []"
| "json_of_dict ((k, Json v) # d) = map_option (\<lambda>r. (k, v) # r) (json_of_dict d)"
| "json_of_dict ((k, Datetime t) # d) = None"

fun json_of_staff :: "person list \<Rightarrow> json list option" where
  "json_of_staff [] = Some []"
| "json_of_staff (p # ps) =
     (case json_of_dict p of
        None \<Rightarrow> None
      | Some j \<Rightarrow> map_option (\<lambda>r. JObject j # r) (json_of_staff ps))"

text \<open>
  The comprehension runs before the file is opened. When \<^verbatim>\<open>json.dump\<close> raises, the file
  has been opened for writing and holds at most the beginning of an array.
\<close>

definition save_people :: "string \<Rightarrow> person list \<Rightarrow> files \<Rightarrow> (error + unit) \<times> files" where
  "save_people file_name staff fs =
     (case format_staff staff of
        Inl e \<Rightarrow> (Inl e, fs)
      | Inr staff_formatted \<Rightarrow>
          (case json_of_staff staff_formatted of
             None \<Rightarrow> (Inl TypeError, fs(file_path file_name \<mapsto> Invalid_JSON))
           | Some js \<Rightarrow> (Inr (), fs(file_path file_name \<mapsto> Valid_JSON (JArray js)))))"

subsection \<open>\<^verbatim>\<open>load_people\<close>\<close>

text \<open>
  \<^verbatim>\<open>for person in staff_loaded\<close>: an array gives its elements, an object its keys, a
  string its characters; the other values are not iterable (\<^verbatim>\<open>TypeError\<close>).
\<close>

fun py_iter :: "json \<Rightarrow> json list option" where
  "py_iter (JArray xs) = Some xs"
| "py_iter (JObject d) = Some (map (\<lambda>kv. JString (fst kv)) d)"
| "py_iter (JString s) = Some (map (\<lambda>c. JString [c]) s)"
| "py_iter v = None"

text \<open>
  The body of the \<^verbatim>\<open>try\<close>: the record with \<^verbatim>\<open>date_of_birth\<close> replaced by the parsed
  date, in the dictionary that \<^verbatim>\<open>json.load\<close> built. Every exception goes to the bare
  \<^verbatim>\<open>except\<close>: \<open>None\<close>.
\<close>

definition parse_date_of_birth :: "json \<Rightarrow> person option" where
  "parse_date_of_birth person =
     (case person of
        JObject d \<Rightarrow>
          (case dict_get d ''date_of_birth'' of
             Some (JString s) \<Rightarrow>
               (case strptime s of
                  Some t \<Rightarrow>
                    Some (dict_set (map (\<lambda>kv. (fst kv, Json (snd kv))) d)
                            ''date_of_birth'' (Datetime t))
                | None \<Rightarrow> None)
           | _ \<Rightarrow> None)
      | _ \<Rightarrow> None)"

text \<open>The loop, with \<^verbatim>\<open>cnt\<close>, \<^verbatim>\<open>result_people\<close> and the lines printed so far.\<close>

fun load_loop ::
  "json list \<Rightarrow> nat \<Rightarrow> person list \<Rightarrow> line list \<Rightarrow> person list \<times> line list"
where
  "load_loop [] cnt result_people out = (result_people, out)"
| "load_loop (person # staff_loaded) cnt result_people out =
     (let cnt' = cnt + 1; (ok, printed) = validate_person person person_schema in
      if ok then
        (case parse_date_of_birth person of
           Some p \<Rightarrow> load_loop staff_loaded cnt' (result_people @ [p]) (out @ printed)
         | None \<Rightarrow> load_loop staff_loaded cnt' result_people (out @ printed @ [Skip_date cnt']))
      else load_loop staff_loaded cnt' result_people (out @ printed @ [Skip_invalid]))"

definition load_people :: "string \<Rightarrow> files \<Rightarrow> (error + person list) \<times> line list" where
  "load_people file_name fs =
     (case fs (file_path file_name) of
        None \<Rightarrow> (Inl FileNotFoundError, [])
      | Some Invalid_JSON \<Rightarrow> (Inl JSONDecodeError, [])
      | Some (Valid_JSON staff_loaded) \<Rightarrow>
          (case py_iter staff_loaded of
             None \<Rightarrow> (Inl TypeError, [])
           | Some xs \<Rightarrow> (case load_loop xs 0 [] [] of (result_people, out) \<Rightarrow> (Inr result_people, out))))"

subsection \<open>The \<^verbatim>\<open>add\<close> command\<close>

text \<open>Load, add, save; an exception ends the command where it is raised.\<close>

definition add ::
  "string \<Rightarrow> string \<Rightarrow> string \<Rightarrow> string \<Rightarrow> string \<Rightarrow> files \<Rightarrow> (error + unit) \<times> files \<times> line list"
where
  "add filename name surname date_of_birth zodiac_sign fs =
     (case load_people filename fs of
        (Inl e, out) \<Rightarrow> (Inl e, fs, out)
      | (Inr people, out) \<Rightarrow>
          (case add_person people name surname date_of_birth zodiac_sign of
             (_, Inl e) \<Rightarrow> (Inl e, fs, out)
           | (_, Inr people') \<Rightarrow>
               (case save_people filename people' fs of (r, fs') \<Rightarrow> (r, fs', out))))"

subsection \<open>\<^verbatim>\<open>save_people\<close> on a store of dictionaries\<close>

text \<open>
  Whether \<^verbatim>\<open>save_people\<close> changes the records it is given is a question about objects,
  not values. Here the dictionaries live in a store, \<^verbatim>\<open>staff\<close> is the list of their
  addresses and every new dictionary takes the next free address.
\<close>

record store =
  cells :: "nat \<Rightarrow> person"
  next_free :: nat

definition alloc :: "person \<Rightarrow> store \<Rightarrow> nat \<times> store" where
  "alloc p s = (next_free s, s\<lparr>cells := (cells s)(next_free s := p), next_free := next_free s + 1\<rparr>)"

fun format_staff_store :: "nat list \<Rightarrow> store \<Rightarrow> (error + nat list) \<times> store" where
  "format_staff_store [] s = (Inr [], s)"
| "format_staff_store (a # staff) s =
     (case format_person (cells s a) of
        Inl e \<Rightarrow> (Inl e, s)
      | Inr p \<Rightarrow>
          (case alloc p s of
             (a', s') \<Rightarrow>
               (case format_staff_store staff s' of
                  (Inl e, s'') \<Rightarrow> (Inl e, s'')
                | (Inr as, s'') \<Rightarrow> (Inr (a' # as), s''))))"

definition save_people_store ::
  "string \<Rightarrow> nat list \<Rightarrow> store \<Rightarrow> files \<Rightarrow> (error + unit) \<times> store \<times> files"
where
  "save_people_store file_name staff s fs =
     (case format_staff_store staff s of
        (Inl e, s') \<Rightarrow> (Inl e, s', fs)
      | (Inr staff_formatted, s') \<Rightarrow>
          (case json_of_staff (map (cells s') staff_formatted) of
             None \<Rightarrow> (Inl TypeError, s', fs(file_path file_name \<mapsto> Invalid_JSON))
           | Some js \<Rightarrow> (Inr (), s', fs(file_path file_name \<mapsto> Valid_JSON (JArray js)))))"

subsection \<open>Notions used in the statements\<close>

text \<open>
  What the schema asks of a value, keyword by keyword: an object in which each of the
  four required keys is present and holds a string.
\<close>

definition has_string :: "(string \<times> json) list \<Rightarrow> string \<Rightarrow> bool" where
  "has_string d k = (case dict_get d k of Some (JString s) \<Rightarrow> True | _ \<Rightarrow> False)"

definition conforms :: "json \<Rightarrow> bool" where
  "conforms v =
     (case v of
        JObject d \<Rightarrow>
          has_string d ''name'' \<and> has_string d ''surname'' \<and>
          has_string d ''date_of_birth'' \<and> has_string d ''zodiac_sign''
      | _ \<Rightarrow> False)"

text \<open>An object whose keys are the four required ones and no other.\<close>

definition only_required_keys :: "json \<Rightarrow> bool" where
  "only_required_keys v =
     (case v of
        JObject d \<Rightarrow> set (map fst d) = {''name'', ''surname'', ''date_of_birth'', ''zodiac_sign''}
      | _ \<Rightarrow> False)"

text \<open>The \<^verbatim>\<open>date_of_birth\<close> of a raw record is a text that \<^verbatim>\<open>strptime\<close> parses.\<close>

definition date_parses :: "json \<Rightarrow> bool" where
  "date_parses v =
     (case v of
        JObject d \<Rightarrow>
          (case dict_get d ''date_of_birth'' of
             Some (JString s) \<Rightarrow> strptime s \<noteq> None
           | _ \<Rightarrow> False)
      | _ \<Rightarrow> False)"

text \<open>A raw record that the load keeps, the record it becomes, and the lines a raw
  record at position \<open>i\<close> makes the load print.\<close>

definition accepted :: "json \<Rightarrow> bool" where
  "accepted v \<longleftrightarrow> fst (validate_person v person_schema) \<and> date_parses v"

definition loaded :: "json \<Rightarrow> person" where
  "loaded v = (case parse_date_of_birth v of Some p \<Rightarrow> p | None \<Rightarrow> [])"

definition skip_lines :: "nat \<Rightarrow> json \<Rightarrow> line list" where
  "skip_lines i v =
     (if fst (validate_person v person_schema)
      then (if date_parses v then [] else [Skip_date i])
      else snd (validate_person v person_schema) @ [Skip_invalid])"

text \<open>The dictionary \<^verbatim>\<open>add_person\<close> builds, and the string a record is sorted by.\<close>

definition new_person :: "string \<Rightarrow> string \<Rightarrow> datetime \<Rightarrow> string \<Rightarrow> person" where
  "new_person name surname t zodiac_sign =
     [(''name'', Json (JString name)), (''surname'', Json (JString surname)),
      (''date_of_birth'', Datetime t), (''zodiac_sign'', Json (JString zodiac_sign))]"

definition zodiac_str :: "person \<Rightarrow> string" where
  "zodiac_str item = str_of (zodiac_key item)"

text \<open>A record with a (valid) date of birth, and one born in month \<open>m\<close>.\<close>

definition has_birth_date :: "person \<Rightarrow> bool" where
  "has_birth_date p =
     (case dict_get p ''date_of_birth'' of Some (Datetime t) \<Rightarrow> valid_date t | _ \<Rightarrow> False)"

definition born_in :: "int \<Rightarrow> person \<Rightarrow> bool" where
  "born_in m p =
     (case dict_get p ''date_of_birth'' of Some (Datetime t) \<Rightarrow> int (month t) = m | _ \<Rightarrow> False)"

definition selected_line :: "nat \<times> person \<Rightarrow> line" where
  "selected_line ip =
     Selected (fst ip) (get_or_empty (snd ip) ''name'') (get_or_empty (snd ip) ''surname'')"

text \<open>
  A record as the data model has it: distinct keys, the three texts, a valid parsed date
  under \<^verbatim>\<open>date_of_birth\<close>, and JSON values under every other key.
\<close>

fun is_json :: "pyval \<Rightarrow> bool" where
  "is_json (Json v) = True"
| "is_json (Datetime t) = False"

definition wf_record :: "person \<Rightarrow> bool" where
  "wf_record p \<longleftrightarrow>
     distinct (map fst p) \<and>
     is_str (get_or_empty p ''name'') \<and> dict_get p ''name'' \<noteq> None \<and>
     is_str (get_or_empty p ''surname'') \<and> dict_get p ''surname'' \<noteq> None \<and>
     is_str (get_or_empty p ''zodiac_sign'') \<and> dict_get p ''zodiac_sign'' \<noteq> None \<and>
     has_birth_date p \<and>
     list_all (\<lambda>kv. fst kv = ''date_of_birth'' \<or> is_json (snd kv)) p"

text \<open>A record whose year of birth has four digits.\<close>

definition four_digit_year :: "person \<Rightarrow> bool" where
  "four_digit_year p =
     (case dict_get p ''date_of_birth'' of Some (Datetime t) \<Rightarrow> 1000 \<le> year t | _ \<Rightarrow> False)"

text \<open>A date written with day and month in as few digits as they need.\<close>

definition unpadded2 :: "nat \<Rightarrow> string" where
  "unpadded2 n = (if n < 10 then [digit_char n] else pad2 n)"

definition unpadded :: "datetime \<Rightarrow> string" where
  "unpadded t = unpadded2 (day t) @ ''.'' @ unpadded2 (month t) @ ''.'' @ pad4 (year t)"

text \<open>
  A raw record as \<^verbatim>\<open>save_people\<close> writes it back after \<^verbatim>\<open>load_people\<close> has read it: the
  same object with the date text printed anew from the parsed date.
\<close>

definition written_back :: "json \<Rightarrow> json" where
  "written_back v =
     (case v of
        JObject d \<Rightarrow>
          (case dict_get d ''date_of_birth'' of
             Some (JString s) \<Rightarrow>
               (case strptime s of
                  Some t \<Rightarrow> JObject (dict_set d ''date_of_birth'' (JString (strftime t)))
                | None \<Rightarrow> v)
           | _ \<Rightarrow> v)
      | _ \<Rightarrow> v)"

section \<open>Properties\<close>

subsection \<open>Digits and dates\<close>

lemma digit_char_less10:
  assumes "n < 10"
  shows "is_digit (digit_char n)" and "digit_val (digit_char n) = n"
    and "not_dot (digit_char n)" and "digit_char n \<noteq> CHR '' ''"
proof -
  have "\<forall>k\<in>set [0..<10]. is_digit (digit_char k) \<and> digit_val (digit_char k) = k \<and>
           not_dot (digit_char k) \<and> digit_char k \<noteq> CHR '' ''"
    by code_simp
  moreover have "n \<in> set [0..<10]" using assms by simp
  ultimately show "is_digit (digit_char n)" and "digit_val (digit_char n) = n"
    and "not_dot (digit_char n)" and "digit_char n \<noteq> CHR '' ''"
    by blast+
qed

lemma int_of_digits_pad4:
  assumes "n \<le> 9999"
  shows "int_of_digits (pad4 n) = n"
proof -
  define q1 where "q1 = n div 10"
  define r0 where "r0 = n mod 10"
  define q2 where "q2 = q1 div 10"
  define r1 where "r1 = q1 mod 10"
  define q3 where "q3 = q2 div 10"
  define r2 where "r2 = q2 mod 10"
  note defs = q1_def r0_def q2_def r1_def q3_def r2_def
  have e: "n div 10 = q1" "n div 100 = q2" "n div 1000 = q3"
    by (simp_all add: defs div_mult2_eq)
  have c: "q3 < 10" using assms e(3) by simp
  have "int_of_digits (pad4 n) = 10 * (10 * (10 * q3 + r2) + r1) + r0"
    unfolding int_of_digits_def pad4_def e r0_def r1_def r2_def
    using c by (simp add: digit_char_less10(2,4))
  also have "\<dots> = n"
  proof -
    have "n = 10 * q1 + r0" "q1 = 10 * q2 + r1" "q2 = 10 * q3 + r2"
      by (simp_all add: defs)
    then show ?thesis by simp
  qed
  finally show ?thesis .
qed

lemma match_Y_pad4: "match_Y (pad4 n)"
  by (simp add: match_Y_def pad4_def digit_char_less10(1))

lemma not_dot_pad4: "list_all not_dot (pad4 n)"
  by (simp add: pad4_def digit_char_less10(3))

lemma day_digits:
  assumes "1 \<le> n" and "n \<le> 31"
  shows "match_d (pad2 n)" and "int_of_digits (pad2 n) = n" and "list_all not_dot (pad2 n)"
    and "match_d (unpadded2 n)" and "int_of_digits (unpadded2 n) = n"
    and "list_all not_dot (unpadded2 n)"
proof -
  have "\<forall>k\<in>set [1..<32].
          match_d (pad2 k) \<and> int_of_digits (pad2 k) = k \<and> list_all not_dot (pad2 k) \<and>
          match_d (unpadded2 k) \<and> int_of_digits (unpadded2 k) = k \<and>
          list_all not_dot (unpadded2 k)"
    by code_simp
  moreover have "n \<in> set [1..<32]" using assms by simp
  ultimately show "match_d (pad2 n)" and "int_of_digits (pad2 n) = n"
    and "list_all not_dot (pad2 n)"
    and "match_d (unpadded2 n)" and "int_of_digits (unpadded2 n) = n"
    and "list_all not_dot (unpadded2 n)"
    by blast+
qed

lemma month_digits:
  assumes "1 \<le> n" and "n \<le> 12"
  shows "match_m (pad2 n)" and "match_m (unpadded2 n)"
proof -
  have "\<forall>k\<in>set [1..<13]. match_m (pad2 k) \<and> match_m (unpadded2 k)"
    by code_simp
  moreover have "n \<in> set [1..<13]" using assms by simp
  ultimately show "match_m (pad2 n)" and "match_m (unpadded2 n)" by blast+
qed

lemma split_at_dot:
  assumes "list_all not_dot xs"
  shows "takeWhile not_dot (xs @ CHR ''.'' # r) = xs"
    and "dropWhile not_dot (xs @ CHR ''.'' # r) = CHR ''.'' # r"
  using assms by (induction xs) (simp_all add: not_dot_def)

lemma no_dot_at_all:
  assumes "list_all not_dot xs"
  shows "takeWhile not_dot xs = xs" and "dropWhile not_dot xs = []"
  using assms by (induction xs) simp_all

lemma days_in_month_le: "days_in_month y m \<le> 31"
  by (simp add: days_in_month_def)

text \<open>The parser reads a date from its three parts, whatever their padding.\<close>

lemma strptime_parts:
  assumes "valid_date t"
    and "match_d ds" "int_of_digits ds = day t" "list_all not_dot ds"
    and "match_m ms" "int_of_digits ms = month t" "list_all not_dot ms"
  shows "strptime (ds @ ''.'' @ ms @ ''.'' @ pad4 (year t)) = Some t"
proof -
  from assms(1) have y: "year t \<le> 9999" by (simp add: valid_date_def)
  have v: "valid_date \<lparr>year = year t, month = month t, day = day t\<rparr>"
    using assms(1) by (simp add: valid_date_def)
  show ?thesis
    unfolding strptime_def
    using assms(2-7) v
    by (simp add: split_at_dot no_dot_at_all not_dot_pad4 match_Y_pad4 int_of_digits_pad4[OF y])
qed

lemma date_bounds:
  assumes "valid_date t"
  shows "1 \<le> day t" "day t \<le> 31" "1 \<le> month t" "month t \<le> 12"
  using assms days_in_month_le[of "year t" "month t"] by (auto simp: valid_date_def)

lemma year_text_four_digits: "1000 \<le> y \<Longrightarrow> year_text y = pad4 y"
  by (simp add: year_text_def)

lemma year_text_short: "y < 1000 \<Longrightarrow> length (year_text y) < 4"
  by (simp add: year_text_def)

lemma not_dot_pad2: "list_all not_dot (pad2 n)"
  by (simp add: pad2_def digit_char_less10(3))

text \<open>
  What \<^verbatim>\<open>strftime\<close> prints is read back by \<^verbatim>\<open>strptime\<close> from the year 1000 on, and is
  rejected below: the year has fewer than four digits.
\<close>

lemma strptime_strftime:
  assumes "valid_date t" and "1000 \<le> year t"
  shows "strptime (strftime t) = Some t"
  unfolding strftime_def year_text_four_digits[OF assms(2)]
  using date_bounds[OF assms(1)]
  by (intro strptime_parts assms day_digits month_digits) (simp_all add: day_digits)

lemma strptime_strftime_early:
  assumes "year t < 1000"
  shows "strptime (strftime t) = None"
proof -
  have "\<not> match_Y (year_text (year t))"
    using year_text_short[OF assms] by (simp add: match_Y_def)
  then show ?thesis
    unfolding strptime_def strftime_def
    by (simp add: split_at_dot not_dot_pad2 Let_def)
qed

lemma strptime_unpadded:
  assumes "valid_date t"
  shows "strptime (unpadded t) = Some t"
  unfolding unpadded_def
  using date_bounds[OF assms]
  by (intro strptime_parts assms day_digits month_digits) (simp_all add: day_digits)

lemma strptime_valid:
  assumes "strptime s = Some t"
  shows "valid_date t"
  using assms unfolding strptime_def
  by (auto simp: Let_def split: list.splits if_splits)

subsection \<open>Validation\<close>

lemma string_schema_errors:
  "iter_errors (Schema (Some TString) [] [] f) path x =
     (if is_type TString x then [] else [Type_mismatch path TString])"
  by (cases x) simp_all

lemma best_match_None: "best_match errs = None \<longleftrightarrow> errs = []"
  by (auto simp: best_match_def split: list.splits)

lemma best_match_in_set:
  assumes "best_match errs = Some e"
  shows "e \<in> set errs"
proof (cases "filter (\<lambda>e. error_path e = []) errs")
  case Nil
  with assms show ?thesis by (auto simp: best_match_def split: list.splits)
next
  case (Cons a as)
  then have "a \<in> set (filter (\<lambda>e. error_path e = []) errs)" by simp
  then have "a \<in> set errs" by simp
  moreover from assms Cons have "e = a" by (simp add: best_match_def)
  ultimately show ?thesis by simp
qed

lemma is_string_iff: "is_type TString x \<longleftrightarrow> (\<exists>s. x = JString s)"
  by (cases x) simp_all

lemma has_string_iff: "has_string d k \<longleftrightarrow> (\<exists>s. dict_get d k = Some (JString s))"
  by (auto simp: has_string_def split: option.splits json.splits)

lemma property_errors:
  "(case dict_get d k of None \<Rightarrow> []
    | Some x \<Rightarrow> iter_errors (Schema (Some TString) [] [] f) path x) = [] \<longleftrightarrow>
   dict_get d k = None \<or> has_string d k"
  by (cases "dict_get d k")
    (simp_all add: string_schema_errors is_string_iff has_string_iff del: iter_errors.simps)

lemma has_string_present: "has_string d k \<Longrightarrow> dict_get d k \<noteq> None"
  by (auto simp: has_string_iff)

lemma object_errors:
  "iter_errors person_schema [] (JObject d) = [] \<longleftrightarrow> conforms (JObject d)"
  unfolding person_schema_def conforms_def
  by (simp add: property_errors) (auto simp: has_string_iff)

lemma iter_errors_conforms: "iter_errors person_schema [] v = [] \<longleftrightarrow> conforms v"
proof (cases v)
  case (JObject d)
  then show ?thesis by (simp add: object_errors)
qed (simp_all add: person_schema_def conforms_def)

lemma validate_person_conforms: "fst (validate_person v person_schema) \<longleftrightarrow> conforms v"
  unfolding validate_person_def
  using best_match_None[of "iter_errors person_schema [] v"] iter_errors_conforms[of v]
  by (auto split: option.splits)

lemma validate_person_True:
  "conforms v \<Longrightarrow> validate_person v person_schema = (True, [])"
  unfolding validate_person_def
  using best_match_None[of "iter_errors person_schema [] v"] iter_errors_conforms[of v]
  by (auto split: option.splits)

lemma validate_person_False:
  assumes "\<not> conforms v"
  shows "\<exists>e\<in>set (iter_errors person_schema [] v).
           validate_person v person_schema = (False, [Schema_mismatch e])"
proof -
  from assms have "best_match (iter_errors person_schema [] v) \<noteq> None"
    by (simp add: best_match_None iter_errors_conforms)
  then obtain e where e: "best_match (iter_errors person_schema [] v) = Some e" by blast
  from best_match_in_set[OF e] e show ?thesis by (auto simp: validate_person_def)
qed

lemma dict_get_dict_set:
  "dict_get (dict_set d k v) k' = (if k' = k then Some v else dict_get d k')"
  by (induction d) (auto simp: dict_get_def)


lemma has_string_dict_set:
  "k \<noteq> k' \<Longrightarrow> has_string (dict_set d k v) k' = has_string d k'"
  by (simp add: has_string_def dict_get_dict_set)


text \<open>
  C7. \<^verbatim>\<open>validate_person\<close> returns a verdict for every JSON value and raises nothing
  (it has no error result: \<^verbatim>\<open>validate\<close> raises \<^verbatim>\<open>ValidationError\<close> only, which is caught).
  On a value that conforms to the schema it returns true and prints nothing; on any other
  value, of whatever shape, it returns false after printing one diagnostic, which names
  one of the violations of that value.
\<close>

theorem validate_person_verdict:
  "(conforms v \<longrightarrow> validate_person v person_schema = (True, [])) \<and>
   (\<not> conforms v \<longrightarrow>
      (\<exists>e\<in>set (iter_errors person_schema [] v).
         validate_person v person_schema = (False, [Schema_mismatch e])))"
  using validate_person_True[of v] validate_person_False[of v] by blast

theorem validate_person_verdict_witness:
  "conforms (JObject [(''name'', JString ''Anna''), (''surname'', JString ''Ivanova''),
                      (''date_of_birth'', JString ''15.03.1990''),
                      (''zodiac_sign'', JString ''Pisces'')]) \<and>
   validate_person (JObject [(''name'', JString ''Anna''), (''surname'', JString ''Ivanova''),
                      (''date_of_birth'', JString ''15.03.1990''),
                      (''zodiac_sign'', JString ''Pisces'')]) person_schema = (True, []) \<and>
   \<not> conforms (JArray [JInt 3]) \<and>
   validate_person (JArray [JInt 3]) person_schema =
     (False, [Schema_mismatch (Type_mismatch [] TObject)])"
  using validate_person_verdict[of "JObject [(''name'', JString ''Anna''),
          (''surname'', JString ''Ivanova''), (''date_of_birth'', JString ''15.03.1990''),
          (''zodiac_sign'', JString ''Pisces'')]"]
    validate_person_verdict[of "JArray [JInt 3]"]
  by (simp add: conforms_def has_string_def dict_get_def person_schema_def)

text \<open>
  C3, as stated, fails: a record that has a fifth key besides the four required ones is
  accepted, so a true verdict does not mean that the record has exactly the required
  keys.
\<close>

theorem validate_person_extra_key_counterexample:
  "fst (validate_person
         (JObject [(''name'', JString ''Anna''), (''surname'', JString ''Ivanova''),
                   (''date_of_birth'', JString ''15.03.1990''),
                   (''zodiac_sign'', JString ''Pisces''), (''city'', JString ''Omsk'')])
         person_schema) \<and>
   \<not> only_required_keys
         (JObject [(''name'', JString ''Anna''), (''surname'', JString ''Ivanova''),
                   (''date_of_birth'', JString ''15.03.1990''),
                   (''zodiac_sign'', JString ''Pisces''), (''city'', JString ''Omsk'')])"
proof -
  have "{''name'', ''surname'', ''date_of_birth'', ''zodiac_sign'', ''city''} \<noteq>
        {''name'', ''surname'', ''date_of_birth'', ''zodiac_sign''}"
  proof
    assume "{''name'', ''surname'', ''date_of_birth'', ''zodiac_sign'', ''city''} =
            {''name'', ''surname'', ''date_of_birth'', ''zodiac_sign''}"
    then have "''city'' \<in> {''name'', ''surname'', ''date_of_birth'', ''zodiac_sign''}"
      by (rule subst) simp
    then show False by simp
  qed
  then show ?thesis
    by (simp add: validate_person_def best_match_def person_schema_def dict_get_def
        only_required_keys_def)
qed

text \<open>
  C3, amended. \<^verbatim>\<open>validate_person\<close> returns true only if the record is an object in
  which each of the keys \<^verbatim>\<open>name\<close>, \<^verbatim>\<open>surname\<close>, \<^verbatim>\<open>date_of_birth\<close> and \<^verbatim>\<open>zodiac_sign\<close> is
  present and holds a string; a key other than these four, whatever it holds, does not
  change the verdict.
\<close>

theorem validate_person_required_keys:
  "(fst (validate_person v person_schema) \<longrightarrow>
      (\<exists>d. v = JObject d \<and>
         (\<forall>k\<in>{''name'', ''surname'', ''date_of_birth'', ''zodiac_sign''}.
            \<exists>s. dict_get d k = Some (JString s)))) \<and>
   (k \<notin> {''name'', ''surname'', ''date_of_birth'', ''zodiac_sign''} \<longrightarrow>
      fst (validate_person (JObject (dict_set d' k x)) person_schema) =
      fst (validate_person (JObject d') person_schema))"
proof (intro conjI impI)
  assume "fst (validate_person v person_schema)"
  then have c: "conforms v" by (simp add: validate_person_conforms)
  then obtain d where "v = JObject d" by (cases v) (simp_all add: conforms_def)
  with c show "\<exists>d. v = JObject d \<and>
         (\<forall>k\<in>{''name'', ''surname'', ''date_of_birth'', ''zodiac_sign''}.
            \<exists>s. dict_get d k = Some (JString s))"
    by (simp add: conforms_def has_string_iff)
next
  assume "k \<notin> {''name'', ''surname'', ''date_of_birth'', ''zodiac_sign''}"
  then show "fst (validate_person (JObject (dict_set d' k x)) person_schema) =
      fst (validate_person (JObject d') person_schema)"
    by (simp add: validate_person_conforms conforms_def has_string_dict_set)
qed

theorem validate_person_required_keys_witness:
  "fst (validate_person
         (JObject [(''name'', JString ''Anna''), (''surname'', JString ''Ivanova''),
                   (''date_of_birth'', JString ''15.03.1990''),
                   (''zodiac_sign'', JString ''Pisces'')]) person_schema) \<and>
   (\<exists>s. dict_get [(''name'', JString ''Anna''), (''surname'', JString ''Ivanova''),
                   (''date_of_birth'', JString ''15.03.1990''),
                   (''zodiac_sign'', JString ''Pisces'')] ''surname'' = Some (JString s)) \<and>
   ''city'' \<notin> {''name'', ''surname'', ''date_of_birth'', ''zodiac_sign''} \<and>
   fst (validate_person
         (JObject (dict_set [(''name'', JString ''Anna''), (''surname'', JString ''Ivanova''),
                   (''date_of_birth'', JString ''15.03.1990''),
                   (''zodiac_sign'', JString ''Pisces'')] ''city'' (JInt 7))) person_schema)"
  using validate_person_required_keys[of
      "JObject [(''name'', JString ''Anna''), (''surname'', JString ''Ivanova''),
                (''date_of_birth'', JString ''15.03.1990''),
                (''zodiac_sign'', JString ''Pisces'')]"
      "''city''"
      "[(''name'', JString ''Anna''), (''surname'', JString ''Ivanova''),
        (''date_of_birth'', JString ''15.03.1990''), (''zodiac_sign'', JString ''Pisces'')]"
      "JInt 7"]
  by (simp add: validate_person_def best_match_def person_schema_def dict_get_def)

subsection \<open>Adding a person\<close>

lemma zodiac_key_new_person:
  "zodiac_key (new_person name surname t zodiac_sign) = Json (JString zodiac_sign)"
  by (simp add: zodiac_key_def new_person_def dict_get_def)

lemma sort_people_strs:
  assumes "list_all (\<lambda>item. is_str (zodiac_key item)) people"
  shows "sort_people people = Inr (sort_key zodiac_str people)"
proof -
  have "(\<lambda>item. str_of (zodiac_key item)) = zodiac_str"
    by (rule ext) (simp add: zodiac_str_def)
  with assms show ?thesis by (simp add: sort_people_def)
qed

lemma add_person_parsed:
  assumes "strptime date_of_birth = Some t"
    and "list_all (\<lambda>item. is_str (zodiac_key item)) people"
  shows "add_person people name surname date_of_birth zodiac_sign =
           (sort_key zodiac_str (people @ [new_person name surname t zodiac_sign]),
            Inr (sort_key zodiac_str (people @ [new_person name surname t zodiac_sign])))"
proof -
  have "list_all (\<lambda>item. is_str (zodiac_key item))
          (people @ [new_person name surname t zodiac_sign])"
    using assms(2) by (simp add: zodiac_key_new_person)
  from sort_people_strs[OF this] assms(1) show ?thesis
    by (simp add: add_person_def new_person_def Let_def)
qed

lemma add_person_returns:
  assumes "add_person people name surname date_of_birth zodiac_sign = (ps', Inr ps)"
  shows "\<exists>t. strptime date_of_birth = Some t \<and>
           list_all (\<lambda>item. is_str (zodiac_key item)) people \<and> ps' = ps \<and>
           ps = sort_key zodiac_str (people @ [new_person name surname t zodiac_sign])"
proof (cases "strptime date_of_birth")
  case None
  with assms show ?thesis by (simp add: add_person_def)
next
  case (Some t)
  let ?new = "new_person name surname t zodiac_sign"
  have keys: "list_all (\<lambda>item. is_str (zodiac_key item)) (people @ [?new])"
  proof (rule ccontr)
    assume "\<not> list_all (\<lambda>item. is_str (zodiac_key item)) (people @ [?new])"
    then have "sort_people (people @ [?new]) = Inl TypeError"
      by (simp add: sort_people_def)
    with assms Some show False
      by (simp add: add_person_def new_person_def Let_def)
  qed
  then have k: "list_all (\<lambda>item. is_str (zodiac_key item)) people" by simp
  from assms add_person_parsed[OF Some k, of name surname zodiac_sign] Some k
  show ?thesis by auto
qed

text \<open>
  C1. Whenever \<^verbatim>\<open>add_person\<close> returns, what it returns is the list it was given, now
  holding the old records and the new one, sorted ascending by \<^verbatim>\<open>zodiac_sign\<close>: each
  record's sign is at most that of its successor. Records with the same sign keep their
  order, and the new record is the last of those with its sign. It does return when the
  date text parses and the signs in the collection are strings, as they are in every
  collection that \<^verbatim>\<open>load_people\<close> and \<^verbatim>\<open>add_person\<close> build.
\<close>

theorem add_person_sorted_stable:
  "(add_person people name surname date_of_birth zodiac_sign = (ps', Inr ps) \<longrightarrow>
      ps' = ps \<and>
      sorted (map zodiac_str ps) \<and>
      (\<forall>i. Suc i < length ps \<longrightarrow> zodiac_str (ps ! i) \<le> zodiac_str (ps ! Suc i)) \<and>
      length ps = Suc (length people) \<and>
      (\<exists>t. strptime date_of_birth = Some t \<and>
           (\<forall>k. filter (\<lambda>p. zodiac_str p = k) ps =
                filter (\<lambda>p. zodiac_str p = k)
                  (people @ [new_person name surname t zodiac_sign])) \<and>
           filter (\<lambda>p. zodiac_str p = zodiac_sign) ps =
             filter (\<lambda>p. zodiac_str p = zodiac_sign) people @
             [new_person name surname t zodiac_sign] \<and>
           set ps = insert (new_person name surname t zodiac_sign) (set people))) \<and>
   (strptime date_of_birth = Some t' \<and>
    list_all (\<lambda>item. is_str (zodiac_key item)) people \<longrightarrow>
      (\<exists>ps. add_person people name surname date_of_birth zodiac_sign = (ps, Inr ps)))"
proof (intro conjI impI)
  assume r: "add_person people name surname date_of_birth zodiac_sign = (ps', Inr ps)"
  from add_person_returns[OF r] obtain t where
    t: "strptime date_of_birth = Some t" and same: "ps' = ps"
    and ps: "ps = sort_key zodiac_str (people @ [new_person name surname t zodiac_sign])"
    by blast
  let ?new = "new_person name surname t zodiac_sign"
  show "ps' = ps" by (rule same)
  show srt: "sorted (map zodiac_str ps)" unfolding ps by (rule sorted_sort_key)
  show "\<forall>i. Suc i < length ps \<longrightarrow> zodiac_str (ps ! i) \<le> zodiac_str (ps ! Suc i)"
  proof (intro allI impI)
    fix i assume i: "Suc i < length ps"
    then have "map zodiac_str ps ! i \<le> map zodiac_str ps ! Suc i"
      using srt by (simp add: sorted_iff_nth_Suc)
    with i show "zodiac_str (ps ! i) \<le> zodiac_str (ps ! Suc i)" by simp
  qed
  show "length ps = Suc (length people)" unfolding ps by simp
  have stable: "\<forall>k. filter (\<lambda>p. zodiac_str p = k) ps =
                   filter (\<lambda>p. zodiac_str p = k) (people @ [?new])"
    unfolding ps by (simp only: sort_key_stable) simp
  have key: "zodiac_str ?new = zodiac_sign"
    by (simp add: zodiac_str_def zodiac_key_new_person)
  have last: "filter (\<lambda>p. zodiac_str p = zodiac_sign) ps =
              filter (\<lambda>p. zodiac_str p = zodiac_sign) people @ [?new]"
    unfolding ps by (simp only: sort_key_stable) (simp add: key)
  have "set ps = insert ?new (set people)" unfolding ps by simp
  with t stable last show "\<exists>t. strptime date_of_birth = Some t \<and>
           (\<forall>k. filter (\<lambda>p. zodiac_str p = k) ps =
                filter (\<lambda>p. zodiac_str p = k)
                  (people @ [new_person name surname t zodiac_sign])) \<and>
           filter (\<lambda>p. zodiac_str p = zodiac_sign) ps =
             filter (\<lambda>p. zodiac_str p = zodiac_sign) people @
             [new_person name surname t zodiac_sign] \<and>
           set ps = insert (new_person name surname t zodiac_sign) (set people)"
    by blast
next
  assume "strptime date_of_birth = Some t' \<and>
    list_all (\<lambda>item. is_str (zodiac_key item)) people"
  then show "\<exists>ps. add_person people name surname date_of_birth zodiac_sign = (ps, Inr ps)"
    using add_person_parsed[of date_of_birth t' people name surname zodiac_sign] by blast
qed

theorem add_person_sorted_stable_witness:
  "strptime ''1.1.1985'' = Some \<lparr>year = 1985, month = 1, day = 1\<rparr> \<and>
   list_all (\<lambda>item. is_str (zodiac_key item))
     [new_person ''Anna'' ''Ivanova'' \<lparr>year = 1990, month = 3, day = 15\<rparr> ''Pisces''] \<and>
   add_person [new_person ''Anna'' ''Ivanova'' \<lparr>year = 1990, month = 3, day = 15\<rparr> ''Pisces'']
     ''Boris'' ''Petrov'' ''1.1.1985'' ''Aquarius'' =
     ([new_person ''Boris'' ''Petrov'' \<lparr>year = 1985, month = 1, day = 1\<rparr> ''Aquarius'',
       new_person ''Anna'' ''Ivanova'' \<lparr>year = 1990, month = 3, day = 15\<rparr> ''Pisces''],
      Inr [new_person ''Boris'' ''Petrov'' \<lparr>year = 1985, month = 1, day = 1\<rparr> ''Aquarius'',
           new_person ''Anna'' ''Ivanova'' \<lparr>year = 1990, month = 3, day = 15\<rparr> ''Pisces'']) \<and>
   sorted (map zodiac_str
     [new_person ''Boris'' ''Petrov'' \<lparr>year = 1985, month = 1, day = 1\<rparr> ''Aquarius'',
      new_person ''Anna'' ''Ivanova'' \<lparr>year = 1990, month = 3, day = 15\<rparr> ''Pisces''])"
proof -
  let ?anna = "new_person ''Anna'' ''Ivanova'' \<lparr>year = 1990, month = 3, day = 15\<rparr> ''Pisces''"
  let ?boris = "new_person ''Boris'' ''Petrov'' \<lparr>year = 1985, month = 1, day = 1\<rparr> ''Aquarius''"
  have p: "strptime ''1.1.1985'' = Some \<lparr>year = 1985, month = 1, day = 1\<rparr>"
    by code_simp
  have k: "list_all (\<lambda>item. is_str (zodiac_key item)) [?anna]"
    by (simp add: zodiac_key_new_person)
  have run: "add_person [?anna] ''Boris'' ''Petrov'' ''1.1.1985'' ''Aquarius'' =
               ([?boris, ?anna], Inr [?boris, ?anna])"
    by (simp add: add_person_parsed[OF p k] zodiac_str_def zodiac_key_new_person)
  from add_person_sorted_stable[where people="[?anna]" and name="''Boris''"
      and surname="''Petrov''" and date_of_birth="''1.1.1985''" and zodiac_sign="''Aquarius''"
      and ps'="[?boris, ?anna]" and ps="[?boris, ?anna]"] run
  have "sorted (map zodiac_str [?boris, ?anna])" by blast
  with p k run show ?thesis by blast
qed

subsection \<open>Selecting by month\<close>

lemma select_loop_filter:
  assumes "list_all has_birth_date people"
  shows "select_loop people m count out =
           (Inr (count + length (filter (born_in m) people)),
            out @ map selected_line (enumerate (Suc count) (filter (born_in m) people)))"
  using assms
proof (induction people arbitrary: count out)
  case Nil
  then show ?case by simp
next
  case (Cons p people)
  from Cons.prems obtain t where t: "dict_get p ''date_of_birth'' = Some (Datetime t)"
    by (auto simp: has_birth_date_def split: option.splits pyval.splits)
  from Cons.prems have rest: "list_all has_birth_date people" by simp
  show ?case
    using t Cons.IH[OF rest]
    by (simp add: born_in_def selected_line_def)
qed

lemma born_in_range:
  assumes "has_birth_date p" and "born_in m p"
  shows "1 \<le> m \<and> m \<le> 12"
  using assms
  by (auto simp: has_birth_date_def born_in_def valid_date_def split: option.splits pyval.splits)

text \<open>
  C5. On a collection in which every record has a date of birth, \<^verbatim>\<open>select_people\<close> ends
  normally for every integer month. It prints the records born in that month, in their
  order in the collection, numbered from 1, each with its name and surname; when there is
  none it prints the notice instead. A month below 1 or above 12 matches no record.
\<close>

theorem select_people_month:
  assumes "list_all has_birth_date people"
  shows "select_people people m =
           (Inr (),
            if filter (born_in m) people = [] then [Not_found]
            else map selected_line (enumerate 1 (filter (born_in m) people))) \<and>
         (m < 1 \<or> 12 < m \<longrightarrow> select_people people m = (Inr (), [Not_found]))"
proof -
  have sel: "select_people people m =
           (Inr (),
            if filter (born_in m) people = [] then [Not_found]
            else map selected_line (enumerate 1 (filter (born_in m) people)))"
    by (simp add: select_people_def select_loop_filter[OF assms])
  have "filter (born_in m) people = []" if "m < 1 \<or> 12 < m"
  proof -
    have "\<not> born_in m p" if "p \<in> set people" for p
      using born_in_range[of p m] assms that \<open>m < 1 \<or> 12 < m\<close>
      by (auto simp: list_all_iff)
    then show ?thesis by (simp add: filter_empty_conv)
  qed
  with sel show ?thesis by simp
qed

theorem select_people_month_witness:
  "list_all has_birth_date
     [new_person ''A'' ''One'' \<lparr>year = 1990, month = 1, day = 15\<rparr> ''x'',
      new_person ''B'' ''Two'' \<lparr>year = 1991, month = 5, day = 2\<rparr> ''y'',
      new_person ''C'' ''Three'' \<lparr>year = 1992, month = 5, day = 3\<rparr> ''z'',
      new_person ''D'' ''Four'' \<lparr>year = 1993, month = 12, day = 31\<rparr> ''w''] \<and>
   select_people
     [new_person ''A'' ''One'' \<lparr>year = 1990, month = 1, day = 15\<rparr> ''x'',
      new_person ''B'' ''Two'' \<lparr>year = 1991, month = 5, day = 2\<rparr> ''y'',
      new_person ''C'' ''Three'' \<lparr>year = 1992, month = 5, day = 3\<rparr> ''z'',
      new_person ''D'' ''Four'' \<lparr>year = 1993, month = 12, day = 31\<rparr> ''w''] 5 =
     (Inr (), [Selected 1 (Json (JString ''B'')) (Json (JString ''Two'')),
               Selected 2 (Json (JString ''C'')) (Json (JString ''Three''))]) \<and>
   ((13::int) < 1 \<or> 12 < (13::int)) \<and>
   select_people
     [new_person ''A'' ''One'' \<lparr>year = 1990, month = 1, day = 15\<rparr> ''x'',
      new_person ''B'' ''Two'' \<lparr>year = 1991, month = 5, day = 2\<rparr> ''y'',
      new_person ''C'' ''Three'' \<lparr>year = 1992, month = 5, day = 3\<rparr> ''z'',
      new_person ''D'' ''Four'' \<lparr>year = 1993, month = 12, day = 31\<rparr> ''w''] 13 =
     (Inr (), [Not_found])"
proof -
  let ?people = "[new_person ''A'' ''One'' \<lparr>year = 1990, month = 1, day = 15\<rparr> ''x'',
      new_person ''B'' ''Two'' \<lparr>year = 1991, month = 5, day = 2\<rparr> ''y'',
      new_person ''C'' ''Three'' \<lparr>year = 1992, month = 5, day = 3\<rparr> ''z'',
      new_person ''D'' ''Four'' \<lparr>year = 1993, month = 12, day = 31\<rparr> ''w'']"
  have h: "list_all has_birth_date ?people"
    by (simp add: has_birth_date_def new_person_def dict_get_def valid_date_def
        days_in_month_def)
  from select_people_month[OF h, of 5] select_people_month[OF h, of 13] h
  show ?thesis
    by (simp add: born_in_def new_person_def dict_get_def selected_line_def get_or_empty_def
        enumerate_eq_zip upt_rec)
qed

subsection \<open>Loading\<close>

lemma parse_date_of_birth_None: "parse_date_of_birth v = None \<longleftrightarrow> \<not> date_parses v"
  by (auto simp: parse_date_of_birth_def date_parses_def split: json.splits option.splits)

lemma parse_date_of_birth_Some:
  assumes "date_parses v"
  shows "\<exists>d s t. v = JObject d \<and> dict_get d ''date_of_birth'' = Some (JString s) \<and>
           strptime s = Some t \<and>
           parse_date_of_birth v =
             Some (dict_set (map (\<lambda>kv. (fst kv, Json (snd kv))) d) ''date_of_birth'' (Datetime t))"
  using assms
  by (auto simp: parse_date_of_birth_def date_parses_def split: json.splits option.splits)

lemma load_step_accepted:
  assumes "accepted v"
  shows "load_loop (v # vs) cnt result_people out =
           load_loop vs (Suc cnt) (result_people @ [loaded v]) out"
proof -
  from assms have c: "conforms v" and d: "date_parses v"
    by (simp_all add: accepted_def validate_person_conforms)
  from d obtain p where p: "parse_date_of_birth v = Some p"
    using parse_date_of_birth_None[of v] by auto
  show ?thesis
    by (simp add: validate_person_True[OF c] p loaded_def)
qed

lemma load_step_skipped:
  assumes "\<not> accepted v"
  shows "load_loop (v # vs) cnt result_people out =
           load_loop vs (Suc cnt) result_people (out @ skip_lines (Suc cnt) v)"
proof (cases "conforms v")
  case True
  with assms have "\<not> date_parses v" by (simp add: accepted_def validate_person_conforms)
  then show ?thesis
    using True
    by (simp add: validate_person_True[OF True] parse_date_of_birth_None[THEN iffD2]
        skip_lines_def)
next
  case False
  from validate_person_False[OF False] obtain e
    where "validate_person v person_schema = (False, [Schema_mismatch e])" by blast
  then show ?thesis by (simp add: skip_lines_def)
qed

lemma skip_lines_accepted: "skip_lines i v = [] \<longleftrightarrow> accepted v"
  by (simp add: skip_lines_def accepted_def)

lemma load_loop_filter:
  "load_loop vs cnt result_people out =
     (result_people @ map loaded (filter accepted vs),
      out @ concat (map (\<lambda>iv. skip_lines (fst iv) (snd iv)) (enumerate (Suc cnt) vs)))"
proof (induction vs arbitrary: cnt result_people out)
  case Nil
  then show ?case by simp
next
  case (Cons v vs)
  show ?case
  proof (cases "accepted v")
    case True
    then show ?thesis
      by (simp add: load_step_accepted Cons.IH skip_lines_accepted[THEN iffD2]
          del: load_loop.simps)
  next
    case False
    then show ?thesis
      by (simp add: load_step_skipped Cons.IH del: load_loop.simps)
  qed
qed

lemma load_people_array:
  assumes "fs (file_path file_name) = Some (Valid_JSON (JArray vs))"
  shows "load_people file_name fs =
           (Inr (map loaded (filter accepted vs)),
            concat (map (\<lambda>iv. skip_lines (fst iv) (snd iv)) (enumerate 1 vs)))"
  using assms by (simp add: load_people_def load_loop_filter)

lemma loaded_accepted:
  assumes "accepted v"
  shows "\<exists>d s t. v = JObject d \<and> dict_get d ''date_of_birth'' = Some (JString s) \<and>
           strptime s = Some t \<and>
           loaded v = dict_set (map (\<lambda>kv. (fst kv, Json (snd kv))) d) ''date_of_birth'' (Datetime t)"
proof -
  from assms have "date_parses v" by (simp add: accepted_def)
  from parse_date_of_birth_Some[OF this] show ?thesis
    by (auto simp: loaded_def)
qed

text \<open>
  C2. From a file that holds a JSON array, \<^verbatim>\<open>load_people\<close> returns normally, with the
  elements that pass the schema validation and whose \<^verbatim>\<open>date_of_birth\<close> text parses, in
  file order, each with that text replaced by the parsed date. An element prints nothing
  exactly when it is kept; a valid element whose date does not parse prints the skip
  line with its 1-based position, an invalid element the schema diagnostic and the skip
  notice.
\<close>

theorem load_people_subsequence:
  assumes "fs (file_path file_name) = Some (Valid_JSON (JArray vs))"
  shows "load_people file_name fs =
           (Inr (map loaded (filter accepted vs)),
            concat (map (\<lambda>iv. skip_lines (fst iv) (snd iv)) (enumerate 1 vs))) \<and>
         (\<forall>v. accepted v \<longrightarrow>
            (\<exists>d s t. v = JObject d \<and> dict_get d ''date_of_birth'' = Some (JString s) \<and>
               strptime s = Some t \<and>
               loaded v = dict_set (map (\<lambda>kv. (fst kv, Json (snd kv))) d)
                            ''date_of_birth'' (Datetime t))) \<and>
         (\<forall>i v. (skip_lines i v = []) = accepted v) \<and>
         (\<forall>i v. fst (validate_person v person_schema) \<and> \<not> date_parses v \<longrightarrow>
            skip_lines i v = [Skip_date i]) \<and>
         (\<forall>i v. \<not> fst (validate_person v person_schema) \<longrightarrow>
            (\<exists>e\<in>set (iter_errors person_schema [] v).
               skip_lines i v = [Schema_mismatch e, Skip_invalid]))"
proof (intro conjI allI impI)
  show "load_people file_name fs =
           (Inr (map loaded (filter accepted vs)),
            concat (map (\<lambda>iv. skip_lines (fst iv) (snd iv)) (enumerate 1 vs)))"
    using assms by (rule load_people_array)
next
  fix v assume "accepted v"
  then show "\<exists>d s t. v = JObject d \<and> dict_get d ''date_of_birth'' = Some (JString s) \<and>
               strptime s = Some t \<and>
               loaded v = dict_set (map (\<lambda>kv. (fst kv, Json (snd kv))) d)
                            ''date_of_birth'' (Datetime t)"
    by (rule loaded_accepted)
next
  fix i v show "(skip_lines i v = []) = accepted v" by (rule skip_lines_accepted)
next
  fix i v assume "fst (validate_person v person_schema) \<and> \<not> date_parses v"
  then show "skip_lines i v = [Skip_date i]" by (simp add: skip_lines_def)
next
  fix i v assume n: "\<not> fst (validate_person v person_schema)"
  then have "\<not> conforms v" by (simp add: validate_person_conforms)
  from validate_person_False[OF this] n
  show "\<exists>e\<in>set (iter_errors person_schema [] v).
               skip_lines i v = [Schema_mismatch e, Skip_invalid]"
    by (auto simp: skip_lines_def)
qed

theorem load_people_subsequence_witness:
  "[''data/people.json'' \<mapsto> Valid_JSON (JArray
       [JObject [(''name'', JString ''Anna''), (''surname'', JString ''Ivanova''),
                 (''date_of_birth'', JString ''15.03.1990''),
                 (''zodiac_sign'', JString ''Pisces'')],
        JObject [(''name'', JString ''Boris''), (''surname'', JString ''Petrov''),
                 (''zodiac_sign'', JString ''Aquarius'')],
        JObject [(''name'', JString ''Vera''), (''surname'', JString ''Orlova''),
                 (''date_of_birth'', JString ''1990-03-15''),
                 (''zodiac_sign'', JString ''Pisces'')]])] (file_path ''people.json'') =
     Some (Valid_JSON (JArray
       [JObject [(''name'', JString ''Anna''), (''surname'', JString ''Ivanova''),
                 (''date_of_birth'', JString ''15.03.1990''),
                 (''zodiac_sign'', JString ''Pisces'')],
        JObject [(''name'', JString ''Boris''), (''surname'', JString ''Petrov''),
                 (''zodiac_sign'', JString ''Aquarius'')],
        JObject [(''name'', JString ''Vera''), (''surname'', JString ''Orlova''),
                 (''date_of_birth'', JString ''1990-03-15''),
                 (''zodiac_sign'', JString ''Pisces'')]])) \<and>
   load_people ''people.json''
     [''data/people.json'' \<mapsto> Valid_JSON (JArray
       [JObject [(''name'', JString ''Anna''), (''surname'', JString ''Ivanova''),
                 (''date_of_birth'', JString ''15.03.1990''),
                 (''zodiac_sign'', JString ''Pisces'')],
        JObject [(''name'', JString ''Boris''), (''surname'', JString ''Petrov''),
                 (''zodiac_sign'', JString ''Aquarius'')],
        JObject [(''name'', JString ''Vera''), (''surname'', JString ''Orlova''),
                 (''date_of_birth'', JString ''1990-03-15''),
                 (''zodiac_sign'', JString ''Pisces'')]])] =
     (Inr [new_person ''Anna'' ''Ivanova'' \<lparr>year = 1990, month = 3, day = 15\<rparr> ''Pisces''],
      [Schema_mismatch (Required_missing [] ''date_of_birth''), Skip_invalid, Skip_date 3])"
proof -
  let ?a = "JObject [(''name'', JString ''Anna''), (''surname'', JString ''Ivanova''),
                 (''date_of_birth'', JString ''15.03.1990''),
                 (''zodiac_sign'', JString ''Pisces'')]"
  let ?b = "JObject [(''name'', JString ''Boris''), (''surname'', JString ''Petrov''),
                 (''zodiac_sign'', JString ''Aquarius'')]"
  let ?c = "JObject [(''name'', JString ''Vera''), (''surname'', JString ''Orlova''),
                 (''date_of_birth'', JString ''1990-03-15''),
                 (''zodiac_sign'', JString ''Pisces'')]"
  let ?fs = "[''data/people.json'' \<mapsto> Valid_JSON (JArray [?a, ?b, ?c])]"
  have f: "?fs (file_path ''people.json'') = Some (Valid_JSON (JArray [?a, ?b, ?c]))"
    by (simp add: file_path_def)
  have va: "validate_person ?a person_schema = (True, [])"
    and vb: "validate_person ?b person_schema =
               (False, [Schema_mismatch (Required_missing [] ''date_of_birth'')])"
    and vc: "validate_person ?c person_schema = (True, [])"
    by (simp_all add: validate_person_def best_match_def person_schema_def dict_get_def)
  have da: "strptime ''15.03.1990'' = Some \<lparr>year = 1990, month = 3, day = 15\<rparr>"
    and dc: "strptime ''1990-03-15'' = None"
    by code_simp+
  have acc: "accepted ?a" "\<not> accepted ?b" "\<not> accepted ?c"
    by (simp_all add: accepted_def va vb vc date_parses_def dict_get_def da dc)
  have la: "loaded ?a = new_person ''Anna'' ''Ivanova'' \<lparr>year = 1990, month = 3, day = 15\<rparr> ''Pisces''"
    by (simp add: loaded_def parse_date_of_birth_def dict_get_def da new_person_def)
  have sk: "skip_lines i ?a = []"
    "skip_lines i ?b = [Schema_mismatch (Required_missing [] ''date_of_birth''), Skip_invalid]"
    "skip_lines i ?c = [Skip_date i]" for i
    by (simp_all add: skip_lines_def va vb vc date_parses_def dict_get_def da dc)
  from load_people_subsequence[where fs="?fs" and file_name="''people.json''"
      and vs="[?a, ?b, ?c]", OF f] have
    "load_people ''people.json'' ?fs =
       (Inr (map loaded (filter accepted [?a, ?b, ?c])),
        concat (map (\<lambda>iv. skip_lines (fst iv) (snd iv)) (enumerate 1 [?a, ?b, ?c])))"
    by blast
  then have "load_people ''people.json'' ?fs =
     (Inr [new_person ''Anna'' ''Ivanova'' \<lparr>year = 1990, month = 3, day = 15\<rparr> ''Pisces''],
      [Schema_mismatch (Required_missing [] ''date_of_birth''), Skip_invalid, Skip_date 3])"
    using acc la by (simp add: sk numeral_3_eq_3 del: fun_upd_apply)
  with f show ?thesis by blast
qed

subsection \<open>Dictionaries and their JSON form\<close>

lemma dict_set_twice: "dict_set (dict_set d k v) k v' = dict_set d k v'"
  by (induction d) auto

lemma dict_set_same: "dict_get d k = Some v \<Longrightarrow> dict_set d k v = d"
  by (induction d) (auto simp: dict_get_def split: if_splits)

lemma lift_dict_set:
  "map (\<lambda>kv. (fst kv, Json (snd kv))) (dict_set d k v) =
   dict_set (map (\<lambda>kv. (fst kv, Json (snd kv))) d) k (Json v)"
  by (induction d) auto

lemma dict_get_lift:
  "dict_get (map (\<lambda>kv. (fst kv, Json (snd kv))) d) k = map_option Json (dict_get d k)"
  by (induction d) (auto simp: dict_get_def)

lemma json_of_dict_lift: "json_of_dict (map (\<lambda>kv. (fst kv, Json (snd kv))) j) = Some j"
  by (induction j) auto

lemma all_json_is_lift:
  assumes "list_all (\<lambda>kv. is_json (snd kv)) q"
  shows "\<exists>j. q = map (\<lambda>kv. (fst kv, Json (snd kv))) j"
  using assms
proof (induction q)
  case Nil
  then show ?case by simp
next
  case (Cons a q)
  then obtain j where j: "q = map (\<lambda>kv. (fst kv, Json (snd kv))) j" by auto
  from Cons.prems obtain x where x: "snd a = Json x" by (cases "snd a") auto
  have "a # q = map (\<lambda>kv. (fst kv, Json (snd kv))) ((fst a, x) # j)"
    using j x by (cases a) simp
  then show ?case by (rule exI)
qed

lemma all_json_dict_set:
  assumes "distinct (map fst p)" and "list_all (\<lambda>kv. fst kv = k \<or> is_json (snd kv)) p"
  shows "list_all (\<lambda>kv. is_json (snd kv)) (dict_set p k (Json v))"
  using assms
proof (induction p)
  case Nil
  then show ?case by simp
next
  case (Cons a p)
  show ?case
  proof (cases "fst a = k")
    case True
    with Cons.prems(1) have "k \<notin> fst ` set p" by simp
    then have "\<forall>kv\<in>set p. fst kv \<noteq> k" by (auto simp: image_iff)
    with Cons.prems(2) have "list_all (\<lambda>kv. is_json (snd kv)) p"
      by (auto simp: list_all_iff)
    with True show ?thesis by (cases a) simp
  next
    case False
    with Cons show ?thesis by (cases a) simp
  qed
qed

subsection \<open>Saving\<close>

lemma save_people_pointwise:
  assumes "list_all2 (\<lambda>p j. \<exists>q. format_person p = Inr q \<and> json_of_dict q = Some j) staff js"
  shows "save_people file_name staff fs =
           (Inr (), fs(file_path file_name \<mapsto> Valid_JSON (JArray (map JObject js))))"
proof -
  from assms have "\<exists>qs. format_staff staff = Inr qs \<and> json_of_staff qs = Some (map JObject js)"
    by (induction rule: list_all2_induct) auto
  then show ?thesis by (auto simp: save_people_def)
qed

lemma format_loaded:
  assumes "accepted v"
  shows "\<exists>j. format_person (loaded v) = Inr (map (\<lambda>kv. (fst kv, Json (snd kv))) j) \<and>
           written_back v = JObject j"
proof -
  from loaded_accepted[OF assms] obtain d s t where
    v: "v = JObject d" and s: "dict_get d ''date_of_birth'' = Some (JString s)"
    and t: "strptime s = Some t"
    and l: "loaded v = dict_set (map (\<lambda>kv. (fst kv, Json (snd kv))) d) ''date_of_birth'' (Datetime t)"
    by blast
  have "format_person (loaded v) =
          Inr (map (\<lambda>kv. (fst kv, Json (snd kv)))
                 (dict_set d ''date_of_birth'' (JString (strftime t))))"
    by (simp add: format_person_def l dict_get_dict_set dict_set_twice lift_dict_set)
  moreover have "written_back v = JObject (dict_set d ''date_of_birth'' (JString (strftime t)))"
    by (simp add: written_back_def v s t)
  ultimately show ?thesis by blast
qed

lemma save_loaded:
  "save_people file_name (map loaded (filter accepted vs)) fs =
     (Inr (), fs(file_path file_name \<mapsto>
                   Valid_JSON (JArray (map written_back (filter accepted vs)))))"
proof -
  have "\<exists>js. list_all2 (\<lambda>p j. \<exists>q. format_person p = Inr q \<and> json_of_dict q = Some j)
               (map loaded (filter accepted vs)) js \<and>
             map JObject js = map written_back (filter accepted vs)"
  proof (induction vs)
    case Nil
    then show ?case by simp
  next
    case (Cons v vs)
    show ?case
    proof (cases "accepted v")
      case True
      from format_loaded[OF True] obtain j where
        j: "format_person (loaded v) = Inr (map (\<lambda>kv. (fst kv, Json (snd kv))) j)"
           "written_back v = JObject j" by blast
      from Cons.IH obtain js where
        js: "list_all2 (\<lambda>p j. \<exists>q. format_person p = Inr q \<and> json_of_dict q = Some j)
               (map loaded (filter accepted vs)) js"
            "map JObject js = map written_back (filter accepted vs)" by blast
      have "list_all2 (\<lambda>p j. \<exists>q. format_person p = Inr q \<and> json_of_dict q = Some j)
               (map loaded (filter accepted (v # vs))) (j # js)"
        using True j(1) js(1) by (simp add: json_of_dict_lift)
      moreover have "map JObject (j # js) = map written_back (filter accepted (v # vs))"
        using True j(2) js(2) by simp
      ultimately show ?thesis by blast
    next
      case False
      with Cons.IH show ?thesis by simp
    qed
  qed
  then obtain js where
    "list_all2 (\<lambda>p j. \<exists>q. format_person p = Inr q \<and> json_of_dict q = Some j)
               (map loaded (filter accepted vs)) js"
    and "map JObject js = map written_back (filter accepted vs)" by blast
  from save_people_pointwise[OF this(1), of file_name fs] this(2) show ?thesis by simp
qed




subsection \<open>Saving and loading again\<close>

lemma save_new_person:
  "save_people file_name [new_person name surname t zodiac_sign] fs =
     (Inr (), fs(file_path file_name \<mapsto> Valid_JSON (JArray
        [JObject [(''name'', JString name), (''surname'', JString surname),
                  (''date_of_birth'', JString (strftime t)),
                  (''zodiac_sign'', JString zodiac_sign)]])))"
  by (simp add: save_people_def format_person_def new_person_def dict_get_def)

lemma wf_record_str:
  assumes "is_str (get_or_empty p k)" and "dict_get p k \<noteq> None"
  shows "\<exists>s. dict_get p k = Some (Json (JString s))"
proof -
  from assms(2) obtain v where v: "dict_get p k = Some v" by blast
  with assms(1) have "is_str v" by (simp add: get_or_empty_def)
  then obtain s where "v = Json (JString s)" by (cases v rule: is_str.cases) simp_all
  with v show ?thesis by simp
qed

lemma wf_record_saved:
  assumes "wf_record p" and "four_digit_year p"
  shows "\<exists>j. (\<exists>q. format_person p = Inr q \<and> json_of_dict q = Some j) \<and>
           accepted (JObject j) \<and> loaded (JObject j) = p"
proof -
  let ?lift = "map (\<lambda>kv. (fst kv, Json (snd kv)))"
  from assms(1) obtain t where t: "dict_get p ''date_of_birth'' = Some (Datetime t)"
    and vt: "valid_date t"
    by (auto simp: wf_record_def has_birth_date_def split: option.splits pyval.splits)
  from assms(2) t have yt: "1000 \<le> year t" by (simp add: four_digit_year_def)
  let ?q = "dict_set p ''date_of_birth'' (Json (JString (strftime t)))"
  have fp: "format_person p = Inr ?q" by (simp add: format_person_def t)
  from assms(1) have "list_all (\<lambda>kv. is_json (snd kv)) ?q"
    by (intro all_json_dict_set) (simp_all add: wf_record_def)
  from all_json_is_lift[OF this] obtain j where j: "?q = ?lift j" by blast
  have jq: "json_of_dict ?q = Some j" by (simp add: j json_of_dict_lift)
  have get: "map_option Json (dict_get j k) =
               (if k = ''date_of_birth'' then Some (Json (JString (strftime t))) else dict_get p k)"
    for k
    using dict_get_lift[of j k] dict_get_dict_set[of p "''date_of_birth''" _ k]
    by (simp add: j[symmetric])
  have str: "has_string j k"
    if "is_str (get_or_empty p k)" "dict_get p k \<noteq> None" "k \<noteq> ''date_of_birth''" for k
  proof -
    from wf_record_str[OF that(1,2)] obtain s where "dict_get p k = Some (Json (JString s))"
      by blast
    with get[of k] that(3) have "dict_get j k = Some (JString s)" by auto
    then show ?thesis by (simp add: has_string_iff)
  qed
  have dob: "dict_get j ''date_of_birth'' = Some (JString (strftime t))"
    using get[of "''date_of_birth''"] by auto
  have "conforms (JObject j)"
    using assms(1) str dob by (simp add: conforms_def wf_record_def has_string_iff)
  moreover have "date_parses (JObject j)"
    by (simp add: date_parses_def dob strptime_strftime[OF vt yt])
  ultimately have acc: "accepted (JObject j)"
    by (simp add: accepted_def validate_person_conforms)
  have "loaded (JObject j) = dict_set (?lift j) ''date_of_birth'' (Datetime t)"
    by (simp add: loaded_def parse_date_of_birth_def dob strptime_strftime[OF vt yt])
  also have "\<dots> = dict_set p ''date_of_birth'' (Datetime t)"
    by (simp add: j[symmetric] dict_set_twice)
  also have "\<dots> = p" by (rule dict_set_same[OF t])
  finally have "loaded (JObject j) = p" .
  with fp jq acc show ?thesis by blast
qed

lemma no_skip_lines:
  assumes "list_all accepted vs"
  shows "concat (map (\<lambda>iv. skip_lines (fst iv) (snd iv)) (enumerate n vs)) = []"
  using assms by (induction vs arbitrary: n) (simp_all add: skip_lines_accepted)

lemma filter_all: "list_all P xs \<Longrightarrow> filter P xs = xs"
  by (induction xs) simp_all

text \<open>
  From the year 1000 on the round trip holds: for every collection of records as the
  data model has them (distinct keys, the three texts, a valid parsed date, JSON values
  elsewhere) whose years have four digits, \<^verbatim>\<open>save_people\<close> succeeds and \<^verbatim>\<open>load_people\<close> on
  the file it wrote returns the same collection, in the same order, and skips nothing.
\<close>

lemma save_load_roundtrip_four_digit_years:
  assumes "list_all (\<lambda>p. wf_record p \<and> four_digit_year p) staff"
  shows "\<exists>fs'. save_people file_name staff fs = (Inr (), fs') \<and>
               load_people file_name fs' = (Inr staff, [])"
proof -
  from assms have "\<exists>js. list_all2 (\<lambda>p j. \<exists>q. format_person p = Inr q \<and> json_of_dict q = Some j)
                          staff js \<and>
                        list_all accepted (map JObject js) \<and>
                        map loaded (map JObject js) = staff"
  proof (induction staff)
    case Nil
    then show ?case by simp
  next
    case (Cons p staff)
    from Cons.prems have "wf_record p" and "four_digit_year p"
      and rest: "list_all (\<lambda>p. wf_record p \<and> four_digit_year p) staff" by simp_all
    from wf_record_saved[OF this(1,2)] obtain j where
      j: "\<exists>q. format_person p = Inr q \<and> json_of_dict q = Some j"
         "accepted (JObject j)" "loaded (JObject j) = p" by blast
    from Cons.IH[OF rest] obtain js where
      js: "list_all2 (\<lambda>p j. \<exists>q. format_person p = Inr q \<and> json_of_dict q = Some j) staff js"
          "list_all accepted (map JObject js)" "map loaded (map JObject js) = staff" by blast
    from j js have
      "list_all2 (\<lambda>p j. \<exists>q. format_person p = Inr q \<and> json_of_dict q = Some j)
         (p # staff) (j # js) \<and>
       list_all accepted (map JObject (j # js)) \<and>
       map loaded (map JObject (j # js)) = p # staff"
      by simp
    then show ?case by (rule exI)
  qed
  then obtain js where
    s: "list_all2 (\<lambda>p j. \<exists>q. format_person p = Inr q \<and> json_of_dict q = Some j) staff js"
    and a: "list_all accepted (map JObject js)"
    and l: "map loaded (map JObject js) = staff" by blast
  let ?fs' = "fs(file_path file_name \<mapsto> Valid_JSON (JArray (map JObject js)))"
  have "save_people file_name staff fs = (Inr (), ?fs')"
    by (rule save_people_pointwise[OF s])
  moreover have "?fs' (file_path file_name) = Some (Valid_JSON (JArray (map JObject js)))"
    by simp
  then have "load_people file_name ?fs' = (Inr staff, [])"
    using l by (simp only: load_people_array filter_all[OF a] no_skip_lines[OF a])
  ultimately show ?thesis by blast
qed

text \<open>
  C4. The round trip fails for a date with a year below 1000. The text \<^verbatim>\<open>01.01.0985\<close>
  parses to 1 January 985, so \<^verbatim>\<open>add_person\<close> builds a record with that date. For the
  collection holding this record \<^verbatim>\<open>save_people\<close> writes the date as \<^verbatim>\<open>01.01.985\<close>, and
  \<^verbatim>\<open>load_people\<close> on the file it wrote skips the record with the date notice and returns
  the empty collection: the record does not come back.
\<close>

theorem save_load_early_year_dropped:
  "strptime ''01.01.0985'' = Some \<lparr>year = 985, month = 1, day = 1\<rparr> \<and>
   save_people ''people.json''
     [new_person ''Boris'' ''Petrov'' \<lparr>year = 985, month = 1, day = 1\<rparr> ''Aquarius'']
     Map.empty =
     (Inr (), [''data/people.json'' \<mapsto> Valid_JSON (JArray
        [JObject [(''name'', JString ''Boris''), (''surname'', JString ''Petrov''),
                  (''date_of_birth'', JString ''01.01.985''),
                  (''zodiac_sign'', JString ''Aquarius'')]])]) \<and>
   load_people ''people.json''
     [''data/people.json'' \<mapsto> Valid_JSON (JArray
        [JObject [(''name'', JString ''Boris''), (''surname'', JString ''Petrov''),
                  (''date_of_birth'', JString ''01.01.985''),
                  (''zodiac_sign'', JString ''Aquarius'')]])] =
     (Inr [], [Skip_date 1])"
proof -
  let ?d = "[(''name'', JString ''Boris''), (''surname'', JString ''Petrov''),
             (''date_of_birth'', JString ''01.01.985''),
             (''zodiac_sign'', JString ''Aquarius'')]"
  let ?fs = "[''data/people.json'' \<mapsto> Valid_JSON (JArray [JObject ?d])]"
  have p: "strptime ''01.01.0985'' = Some \<lparr>year = 985, month = 1, day = 1\<rparr>"
    by code_simp
  have s: "strftime \<lparr>year = 985, month = 1, day = 1\<rparr> = ''01.01.985''"
    by code_simp
  have n: "strptime ''01.01.985'' = None"
    by code_simp
  have fp: "file_path ''people.json'' = ''data/people.json''"
    by (simp add: file_path_def)
  have sv: "save_people ''people.json''
     [new_person ''Boris'' ''Petrov'' \<lparr>year = 985, month = 1, day = 1\<rparr> ''Aquarius'']
     Map.empty = (Inr (), ?fs)"
    unfolding save_new_person s fp by simp
  have c: "conforms (JObject ?d)"
    by (simp add: conforms_def has_string_def dict_get_def)
  have na: "\<not> accepted (JObject ?d)"
    by (simp add: accepted_def date_parses_def dict_get_def n)
  have sk: "skip_lines i (JObject ?d) = [Skip_date i]" for i
    using c by (simp add: skip_lines_def validate_person_conforms date_parses_def
        dict_get_def n)
  have f: "?fs (file_path ''people.json'') = Some (Valid_JSON (JArray [JObject ?d]))"
    by (simp add: fp)
  have "load_people ''people.json'' ?fs = (Inr [], [Skip_date 1])"
    using load_people_array[where fs="?fs" and file_name="''people.json''"
        and vs="[JObject ?d]", OF f] na
    by (simp add: sk)
  with p sv show ?thesis by blast
qed

subsection \<open>A date that does not parse\<close>

text \<open>
  C6. When the date text does not parse, \<^verbatim>\<open>add_person\<close> raises \<^verbatim>\<open>ValueError\<close> and the
  collection it was given is as before: nothing is appended. The \<^verbatim>\<open>add\<close> command then
  ends with that error and the file is not written. The load is tolerant instead: a
  stored record with the same text is skipped with the date notice and the load returns.
\<close>

theorem add_person_unparsable_date:
  assumes "strptime date_of_birth = None"
  shows "add_person people name surname date_of_birth zodiac_sign = (people, Inl ValueError) \<and>
         (\<forall>people' out. load_people filename fs = (Inr people', out) \<longrightarrow>
            add filename name surname date_of_birth zodiac_sign fs = (Inl ValueError, fs, out)) \<and>
         (conforms (JObject d) \<and> dict_get d ''date_of_birth'' = Some (JString date_of_birth) \<and>
          fs' (file_path filename) = Some (Valid_JSON (JArray [JObject d])) \<longrightarrow>
            load_people filename fs' = (Inr [], [Skip_date 1]))"
proof (intro conjI allI impI)
  show a: "add_person people name surname date_of_birth zodiac_sign = (people, Inl ValueError)"
    for people
    using assms by (simp add: add_person_def)
  show "add filename name surname date_of_birth zodiac_sign fs = (Inl ValueError, fs, out)"
    if "load_people filename fs = (Inr people', out)" for people' out
    using that by (simp add: add_def a)
  show "load_people filename fs' = (Inr [], [Skip_date 1])"
    if h: "conforms (JObject d) \<and> dict_get d ''date_of_birth'' = Some (JString date_of_birth) \<and>
           fs' (file_path filename) = Some (Valid_JSON (JArray [JObject d]))"
  proof -
    from h assms have n: "\<not> date_parses (JObject d)" by (simp add: date_parses_def)
    then have "\<not> accepted (JObject d)" by (simp add: accepted_def)
    moreover from h n have "skip_lines 1 (JObject d) = [Skip_date 1]"
      by (simp add: skip_lines_def validate_person_conforms)
    ultimately show ?thesis
      using h by (simp add: load_people_array)
  qed
qed

theorem add_person_unparsable_date_witness:
  "strptime ''1990-03-15'' = None \<and>
   add_person [new_person ''Anna'' ''Ivanova'' \<lparr>year = 1990, month = 3, day = 15\<rparr> ''Pisces'']
     ''Vera'' ''Orlova'' ''1990-03-15'' ''Leo'' =
     ([new_person ''Anna'' ''Ivanova'' \<lparr>year = 1990, month = 3, day = 15\<rparr> ''Pisces''],
      Inl ValueError) \<and>
   load_people ''people.json'' [''data/people.json'' \<mapsto> Valid_JSON (JArray [])] = (Inr [], []) \<and>
   add ''people.json'' ''Vera'' ''Orlova'' ''1990-03-15'' ''Leo''
     [''data/people.json'' \<mapsto> Valid_JSON (JArray [])] =
     (Inl ValueError, [''data/people.json'' \<mapsto> Valid_JSON (JArray [])], []) \<and>
   conforms (JObject [(''name'', JString ''Vera''), (''surname'', JString ''Orlova''),
                      (''date_of_birth'', JString ''1990-03-15''),
                      (''zodiac_sign'', JString ''Leo'')]) \<and>
   load_people ''people.json''
     [''data/people.json'' \<mapsto> Valid_JSON (JArray
        [JObject [(''name'', JString ''Vera''), (''surname'', JString ''Orlova''),
                  (''date_of_birth'', JString ''1990-03-15''),
                  (''zodiac_sign'', JString ''Leo'')]])] = (Inr [], [Skip_date 1])"
proof -
  let ?d = "[(''name'', JString ''Vera''), (''surname'', JString ''Orlova''),
             (''date_of_birth'', JString ''1990-03-15''), (''zodiac_sign'', JString ''Leo'')]"
  let ?fs = "[''data/people.json'' \<mapsto> Valid_JSON (JArray [])]"
  let ?fs' = "[''data/people.json'' \<mapsto> Valid_JSON (JArray [JObject ?d])]"
  have n: "strptime ''1990-03-15'' = None"
    by code_simp
  have l: "load_people ''people.json'' ?fs = (Inr [], [])"
    by (simp add: load_people_def file_path_def)
  have c: "conforms (JObject ?d)"
    by (simp add: conforms_def has_string_def dict_get_def)
  have g: "dict_get ?d ''date_of_birth'' = Some (JString ''1990-03-15'')"
    by (simp add: dict_get_def)
  have f: "?fs' (file_path ''people.json'') = Some (Valid_JSON (JArray [JObject ?d]))"
    by (simp add: file_path_def)
  from add_person_unparsable_date[OF n, where filename="''people.json''" and fs="?fs"
      and fs'="?fs'" and d="?d" and name="''Vera''" and surname="''Orlova''"
      and zodiac_sign="''Leo''"
      and people="[new_person ''Anna'' ''Ivanova'' \<lparr>year = 1990, month = 3, day = 15\<rparr> ''Pisces'']"]
    n l c g f
  show ?thesis by blast
qed

subsection \<open>Dates without zero padding\<close>

text \<open>
  A calendar-valid date parses whether its day and its month are written with a leading
  zero or without, in any combination; the year needs its four digits.
\<close>

lemma date_spellings_parse:
  assumes "valid_date t"
    and "ds = pad2 (day t) \<or> ds = unpadded2 (day t)"
    and "ms = pad2 (month t) \<or> ms = unpadded2 (month t)"
  shows "strptime (ds @ ''.'' @ ms @ ''.'' @ pad4 (year t)) = Some t"
proof -
  note b = date_bounds[OF assms(1)]
  from b(3,4) have m31: "month t \<le> 31" by simp
  have "match_d ds" "int_of_digits ds = day t" "list_all not_dot ds"
    using assms(2) day_digits[OF b(1,2)] by auto
  moreover have "match_m ms" "int_of_digits ms = month t" "list_all not_dot ms"
    using assms(3) month_digits[OF b(3,4)] day_digits(2,3,5,6)[OF b(3) m31] by auto
  ultimately show ?thesis by (intro strptime_parts assms(1))
qed

text \<open>
  \<^verbatim>\<open>add_person\<close> takes such a text into any collection whose signs are strings, and
  \<^verbatim>\<open>load_people\<close> keeps a stored record with such a text; the record holds the parsed
  date. \<^verbatim>\<open>save_people\<close> writes the date as \<^verbatim>\<open>strftime\<close> prints it.
\<close>

lemma unpadded_date_added:
  assumes "valid_date t" and "list_all (\<lambda>item. is_str (zodiac_key item)) people"
  shows "\<exists>ps. add_person people name surname (unpadded t) zodiac_sign = (ps, Inr ps) \<and>
              new_person name surname t zodiac_sign \<in> set ps"
  using add_person_parsed[OF strptime_unpadded[OF assms(1)] assms(2), of name surname zodiac_sign]
  by simp

lemma unpadded_date_saved:
  assumes "valid_date t"
  shows "strptime (unpadded t) = Some t \<and>
         add_person [] name surname (unpadded t) zodiac_sign =
           ([new_person name surname t zodiac_sign], Inr [new_person name surname t zodiac_sign]) \<and>
         (fs (file_path file_name) = Some (Valid_JSON (JArray [])) \<longrightarrow>
            add file_name name surname (unpadded t) zodiac_sign fs =
              (Inr (), fs(file_path file_name \<mapsto> Valid_JSON (JArray
                 [JObject [(''name'', JString name), (''surname'', JString surname),
                           (''date_of_birth'', JString (strftime t)),
                           (''zodiac_sign'', JString zodiac_sign)]])), [])) \<and>
         (conforms (JObject d) \<and> dict_get d ''date_of_birth'' = Some (JString (unpadded t)) \<and>
          fs (file_path file_name) = Some (Valid_JSON (JArray [JObject d])) \<longrightarrow>
            load_people file_name fs =
              (Inr [dict_set (map (\<lambda>kv. (fst kv, Json (snd kv))) d) ''date_of_birth'' (Datetime t)],
               []) \<and>
            save_people file_name
              [dict_set (map (\<lambda>kv. (fst kv, Json (snd kv))) d) ''date_of_birth'' (Datetime t)] fs =
              (Inr (), fs(file_path file_name \<mapsto> Valid_JSON (JArray
                 [JObject (dict_set d ''date_of_birth'' (JString (strftime t)))]))))"
proof (intro conjI impI)
  show p: "strptime (unpadded t) = Some t" by (rule strptime_unpadded[OF assms])
  show ap: "add_person [] name surname (unpadded t) zodiac_sign =
           ([new_person name surname t zodiac_sign], Inr [new_person name surname t zodiac_sign])"
    using add_person_parsed[OF p, of "[]" name surname zodiac_sign] by simp
  show "add file_name name surname (unpadded t) zodiac_sign fs =
              (Inr (), fs(file_path file_name \<mapsto> Valid_JSON (JArray
                 [JObject [(''name'', JString name), (''surname'', JString surname),
                           (''date_of_birth'', JString (strftime t)),
                           (''zodiac_sign'', JString zodiac_sign)]])), [])"
    if "fs (file_path file_name) = Some (Valid_JSON (JArray []))"
  proof -
    from that have "load_people file_name fs = (Inr [], [])"
      by (simp add: load_people_def)
    then show ?thesis by (simp add: add_def ap save_new_person)
  qed
next
  assume h: "conforms (JObject d) \<and> dict_get d ''date_of_birth'' = Some (JString (unpadded t)) \<and>
          fs (file_path file_name) = Some (Valid_JSON (JArray [JObject d]))"
  have p: "strptime (unpadded t) = Some t" by (rule strptime_unpadded[OF assms])
  from h p have acc: "accepted (JObject d)"
    by (simp add: accepted_def validate_person_conforms date_parses_def)
  from h p have l: "loaded (JObject d) =
      dict_set (map (\<lambda>kv. (fst kv, Json (snd kv))) d) ''date_of_birth'' (Datetime t)"
    by (simp add: loaded_def parse_date_of_birth_def)
  from h p have w: "written_back (JObject d) =
      JObject (dict_set d ''date_of_birth'' (JString (strftime t)))"
    by (simp add: written_back_def)
  from h acc l show "load_people file_name fs =
      (Inr [dict_set (map (\<lambda>kv. (fst kv, Json (snd kv))) d) ''date_of_birth'' (Datetime t)], [])"
    by (simp add: load_people_array skip_lines_accepted)
  from save_loaded[of file_name "[JObject d]" fs] acc l w
  show "save_people file_name
          [dict_set (map (\<lambda>kv. (fst kv, Json (snd kv))) d) ''date_of_birth'' (Datetime t)] fs =
        (Inr (), fs(file_path file_name \<mapsto> Valid_JSON (JArray
           [JObject (dict_set d ''date_of_birth'' (JString (strftime t)))])))"
    by simp
qed

text \<open>From the year 1000 on, what is written is the padded form: ten characters.\<close>

lemma strftime_four_digit_year:
  assumes "1000 \<le> year t"
  shows "strftime t =
           [digit_char (day t div 10 mod 10), digit_char (day t mod 10), CHR ''.'',
            digit_char (month t div 10 mod 10), digit_char (month t mod 10), CHR ''.'',
            digit_char (year t div 1000 mod 10), digit_char (year t div 100 mod 10),
            digit_char (year t div 10 mod 10), digit_char (year t mod 10)]"
  by (simp add: strftime_def year_text_four_digits[OF assms] pad2_def pad4_def)

text \<open>
  C8. The text \<^verbatim>\<open>1.1.0985\<close>, with day and month unpadded, is calendar-valid and parses to
  1 January 985: the \<^verbatim>\<open>add\<close> command accepts it with that date, as the claim says. But
  what \<^verbatim>\<open>save_people\<close> then writes is \<^verbatim>\<open>01.01.985\<close>: day and month are padded, the year
  is not, so the date is not written in the form \<^verbatim>\<open>DD.MM.YYYY\<close>, and \<^verbatim>\<open>strptime\<close> does
  not read it back.
\<close>

theorem add_early_year_written_unpadded:
  "valid_date \<lparr>year = 985, month = 1, day = 1\<rparr> \<and>
   strptime ''1.1.0985'' = Some \<lparr>year = 985, month = 1, day = 1\<rparr> \<and>
   add ''people.json'' ''Boris'' ''Petrov'' ''1.1.0985'' ''Aquarius''
     [''data/people.json'' \<mapsto> Valid_JSON (JArray [])] =
     (Inr (),
      [''data/people.json'' \<mapsto> Valid_JSON (JArray
         [JObject [(''name'', JString ''Boris''), (''surname'', JString ''Petrov''),
                   (''date_of_birth'', JString ''01.01.985''),
                   (''zodiac_sign'', JString ''Aquarius'')]])],
      []) \<and>
   strptime ''01.01.985'' = None"
proof -
  let ?t = "\<lparr>year = 985, month = 1, day = 1\<rparr>"
  let ?fs = "[''data/people.json'' \<mapsto> Valid_JSON (JArray [])]"
  have v: "valid_date ?t"
    by (simp add: valid_date_def days_in_month_def)
  have u: "unpadded ?t = ''1.1.0985''"
    by code_simp
  have s: "strftime ?t = ''01.01.985''"
    by code_simp
  have n: "strptime ''01.01.985'' = None"
    by code_simp
  have fp: "file_path ''people.json'' = ''data/people.json''"
    by (simp add: file_path_def)
  have f: "?fs ''data/people.json'' = Some (Valid_JSON (JArray []))"
    by simp
  have e: "?fs(''data/people.json'' \<mapsto> x) = [''data/people.json'' \<mapsto> x]" for x
    by simp
  from unpadded_date_saved[OF v, where fs="?fs" and file_name="''people.json''"
      and name="''Boris''" and surname="''Petrov''" and zodiac_sign="''Aquarius''",
      unfolded u s fp e] f v n
  show ?thesis by blast
qed

subsection \<open>Saving leaves the records as they are\<close>

lemma alloc_frame:
  assumes "alloc p s = (a, s')"
  shows "a = next_free s" and "next_free s' = Suc (next_free s)"
    and "cells s' a = p" and "\<And>b. b < next_free s \<Longrightarrow> cells s' b = cells s b"
  using assms by (auto simp: alloc_def)

lemma format_staff_store_frame:
  assumes "format_staff_store staff s = (r, s')"
  shows "next_free s \<le> next_free s' \<and> (\<forall>a. a < next_free s \<longrightarrow> cells s' a = cells s a)"
  using assms
proof (induction staff arbitrary: s r s')
  case Nil
  then show ?case by simp
next
  case (Cons a staff)
  show ?case
  proof (cases "format_person (cells s a)")
    case (Inl e)
    with Cons.prems show ?thesis by simp
  next
    case (Inr p)
    obtain a' s1 where al: "alloc p s = (a', s1)" by (cases "alloc p s")
    obtain r2 s2 where rec: "format_staff_store staff s1 = (r2, s2)"
      by (cases "format_staff_store staff s1")
    from Cons.prems Inr al rec have "s' = s2"
      by (auto split: sum.splits)
    moreover from Cons.IH[OF rec]
    have "next_free s1 \<le> next_free s2" and "\<forall>b. b < next_free s1 \<longrightarrow> cells s2 b = cells s1 b"
      by simp_all
    ultimately show ?thesis
      using alloc_frame(2,4)[OF al] by auto
  qed
qed

lemma format_staff_store_refines:
  assumes "format_staff_store staff s = (r, s')"
    and "\<forall>a\<in>set staff. a < next_free s"
  shows "format_staff (map (cells s) staff) = map_sum id (map (cells s')) r"
  using assms
proof (induction staff arbitrary: s r s')
  case Nil
  then show ?case by auto
next
  case (Cons a staff)
  show ?case
  proof (cases "format_person (cells s a)")
    case (Inl e)
    with Cons.prems show ?thesis by auto
  next
    case (Inr p)
    obtain a' s1 where al: "alloc p s = (a', s1)" by (cases "alloc p s")
    obtain r2 s2 where rec: "format_staff_store staff s1 = (r2, s2)"
      by (cases "format_staff_store staff s1")
    note af = alloc_frame[OF al]
    from Cons.prems(2) af(2) have valid: "\<forall>b\<in>set staff. b < next_free s1" by auto
    from Cons.prems(2) af(4) have same: "map (cells s1) staff = map (cells s) staff" by auto
    note ih = Cons.IH[OF rec valid, unfolded same]
    from format_staff_store_frame[OF rec] af(1,2,3) have kept: "cells s2 a' = p" by auto
    from Cons.prems(1) Inr al rec have "s' = s2"
      and "r = (case r2 of Inl e \<Rightarrow> Inl e | Inr as \<Rightarrow> Inr (a' # as))"
      by (auto split: sum.splits)
    with Inr ih kept show ?thesis by (cases r2) auto
  qed
qed

text \<open>
  C9. However \<^verbatim>\<open>save_people\<close> ends, every dictionary that existed before the call holds
  afterwards what it held before, its parsed date included: the texts go into new
  dictionaries at new addresses. When \<^verbatim>\<open>staff\<close> refers to existing dictionaries, the
  outcome and the file are those of \<open>save_people\<close> on the records' values, and the
  records of \<^verbatim>\<open>staff\<close> are unchanged.
\<close>

theorem save_people_store_frame:
  assumes "save_people_store file_name staff s fs = (r, s', fs')"
  shows "(\<forall>a. a < next_free s \<longrightarrow> cells s' a = cells s a) \<and>
         next_free s \<le> next_free s' \<and>
         ((\<forall>a\<in>set staff. a < next_free s) \<longrightarrow>
            map (cells s') staff = map (cells s) staff \<and>
            save_people file_name (map (cells s) staff) fs = (r, fs'))"
proof -
  obtain r1 s1 where f: "format_staff_store staff s = (r1, s1)"
    by (cases "format_staff_store staff s")
  from assms f have s': "s' = s1"
    by (auto simp: save_people_store_def split: sum.splits option.splits)
  note frame = format_staff_store_frame[OF f]
  have "map (cells s') staff = map (cells s) staff \<and>
        save_people file_name (map (cells s) staff) fs = (r, fs')"
    if v: "\<forall>a\<in>set staff. a < next_free s"
  proof
    from v frame s' show "map (cells s') staff = map (cells s) staff" by auto
    from format_staff_store_refines[OF f v]
    have "format_staff (map (cells s) staff) = map_sum id (map (cells s1)) r1" .
    with assms f show "save_people file_name (map (cells s) staff) fs = (r, fs')"
      by (cases r1) (auto simp: save_people_store_def save_people_def split: option.splits)
  qed
  with frame s' show ?thesis by blast
qed

theorem save_people_store_frame_witness:
  "save_people_store ''people.json'' [0]
     \<lparr>cells = (\<lambda>a. if a = 0
                    then new_person ''Anna'' ''Ivanova'' \<lparr>year = 1990, month = 3, day = 15\<rparr> ''Pisces''
                    else []),
      next_free = 1\<rparr> Map.empty =
     (Inr (),
      \<lparr>cells = (\<lambda>a. if a = 0
                    then new_person ''Anna'' ''Ivanova'' \<lparr>year = 1990, month = 3, day = 15\<rparr> ''Pisces''
                    else if a = 1
                    then [(''name'', Json (JString ''Anna'')), (''surname'', Json (JString ''Ivanova'')),
                          (''date_of_birth'', Json (JString ''15.03.1990'')),
                          (''zodiac_sign'', Json (JString ''Pisces''))]
                    else []),
       next_free = 2\<rparr>,
      [''data/people.json'' \<mapsto> Valid_JSON (JArray
         [JObject [(''name'', JString ''Anna''), (''surname'', JString ''Ivanova''),
                   (''date_of_birth'', JString ''15.03.1990''),
                   (''zodiac_sign'', JString ''Pisces'')]])]) \<and>
   (0::nat) < 1 \<and>
   save_people ''people.json''
     [new_person ''Anna'' ''Ivanova'' \<lparr>year = 1990, month = 3, day = 15\<rparr> ''Pisces''] Map.empty =
     (Inr (),
      [''data/people.json'' \<mapsto> Valid_JSON (JArray
         [JObject [(''name'', JString ''Anna''), (''surname'', JString ''Ivanova''),
                   (''date_of_birth'', JString ''15.03.1990''),
                   (''zodiac_sign'', JString ''Pisces'')]])])"
proof -
  let ?anna = "new_person ''Anna'' ''Ivanova'' \<lparr>year = 1990, month = 3, day = 15\<rparr> ''Pisces''"
  let ?s = "\<lparr>cells = (\<lambda>a. if a = 0 then ?anna else []), next_free = 1\<rparr>"
  let ?copy = "[(''name'', Json (JString ''Anna'')), (''surname'', Json (JString ''Ivanova'')),
                (''date_of_birth'', Json (JString ''15.03.1990'')),
                (''zodiac_sign'', Json (JString ''Pisces''))]"
  let ?s' = "\<lparr>cells = (\<lambda>a. if a = 0 then ?anna else if a = 1 then ?copy else []),
               next_free = 2\<rparr>"
  let ?fs' = "[''data/people.json'' \<mapsto> Valid_JSON (JArray
         [JObject [(''name'', JString ''Anna''), (''surname'', JString ''Ivanova''),
                   (''date_of_birth'', JString ''15.03.1990''),
                   (''zodiac_sign'', JString ''Pisces'')]])]"
  have t: "strftime \<lparr>year = 1990, month = 3, day = 15\<rparr> = ''15.03.1990''"
    by code_simp
  have c: "(\<lambda>a. if a = 0 then ?anna else [])(Suc 0 := ?copy) =
           (\<lambda>a. if a = 0 then ?anna else if a = 1 then ?copy else [])"
    by (rule ext) simp
  have run: "save_people_store ''people.json'' [0] ?s Map.empty = (Inr (), ?s', ?fs')"
    by (simp add: save_people_store_def format_person_def alloc_def new_person_def
        dict_get_def t file_path_def c)
  from save_people_store_frame[OF run] have
    "save_people ''people.json'' (map (cells ?s) [0]) Map.empty = (Inr (), ?fs')"
    by simp
  then have "save_people ''people.json'' [?anna] Map.empty = (Inr (), ?fs')"
    by simp
  with run show ?thesis by simp
qed

subsection \<open>The collections the program builds\<close>

text \<open>
  The statements about \<^verbatim>\<open>add_person\<close> and \<^verbatim>\<open>select_people\<close> ask that the signs be strings
  and that every record have a date of birth. Every record that \<^verbatim>\<open>load_people\<close> returns
  is such a record, and \<^verbatim>\<open>add_person\<close> adds another one.
\<close>

lemma loaded_invariants:
  assumes "accepted v"
  shows "is_str (zodiac_key (loaded v))" and "has_birth_date (loaded v)"
proof -
  from loaded_accepted[OF assms] obtain d s t where
    v: "v = JObject d" and t: "strptime s = Some t"
    and l: "loaded v = dict_set (map (\<lambda>kv. (fst kv, Json (snd kv))) d) ''date_of_birth'' (Datetime t)"
    by blast
  from assms v have "has_string d ''zodiac_sign''"
    by (simp add: accepted_def validate_person_conforms conforms_def)
  then obtain z where "dict_get d ''zodiac_sign'' = Some (JString z)"
    by (auto simp: has_string_iff)
  then show "is_str (zodiac_key (loaded v))"
    by (simp add: zodiac_key_def l dict_get_dict_set dict_get_lift)
  show "has_birth_date (loaded v)"
    by (simp add: has_birth_date_def l dict_get_dict_set strptime_valid[OF t])
qed

lemma load_people_invariants:
  assumes "fs (file_path file_name) = Some (Valid_JSON (JArray vs))"
  shows "\<exists>people out. load_people file_name fs = (Inr people, out) \<and>
           list_all (\<lambda>p. is_str (zodiac_key p) \<and> has_birth_date p) people"
proof -
  have "list_all (\<lambda>p. is_str (zodiac_key p) \<and> has_birth_date p)
          (map loaded (filter accepted vs))"
    by (simp add: list_all_iff loaded_invariants)
  with load_people_array[of fs file_name vs] assms show ?thesis by simp
qed

lemma add_person_invariants:
  assumes "add_person people name surname date_of_birth zodiac_sign = (ps', Inr ps)"
    and "list_all (\<lambda>p. is_str (zodiac_key p) \<and> has_birth_date p) people"
  shows "list_all (\<lambda>p. is_str (zodiac_key p) \<and> has_birth_date p) ps"
proof -
  from add_person_returns[OF assms(1)] obtain t where
    t: "strptime date_of_birth = Some t"
    and ps: "ps = sort_key zodiac_str (people @ [new_person name surname t zodiac_sign])"
    by blast
  have "has_birth_date (new_person name surname t zodiac_sign)"
    by (simp add: has_birth_date_def new_person_def dict_get_def strptime_valid[OF t])
  with assms(2) show ?thesis
    unfolding ps by (simp add: list_all_iff zodiac_key_new_person)
qed

end
